theory Spec2Isabelle
  imports Main "HOL-Library.Sublist"
begin

section \<open>Data model of the conversations screen\<close>

text \<open>
  The TypeScript type \<^verbatim>\<open>Conversation\<close> of \<^verbatim>\<open>screens/ConversationsScreen.tsx\<close>. The field
  \<^verbatim>\<open>_id\<close> is written \<open>conv_id\<close>. Optional fields (\<^verbatim>\<open>unread?\<close>, \<^verbatim>\<open>unreadCount?\<close>,
  \<^verbatim>\<open>lastMessageDirection?\<close>) are options: \<open>None\<close> stands for \<^verbatim>\<open>undefined\<close> and
  \<^verbatim>\<open>null\<close>, which the code never tells apart. A string is truthy when it is not empty.
\<close>

record Conversation =
  conv_id :: string
  name :: string
  phone :: string
  lastMessage :: string
  lastMessageTime :: string
  unread :: "bool option"
  unreadCount :: "int option"
  lastMessageDirection :: "string option"

datatype direction = Inbound | Outbound | Ai

record Message =
  msg_text :: string
  msg_direction :: direction
  leadId :: "string option"
  date :: "string option"

subsection \<open>JavaScript numbers that come out of \<^verbatim>\<open>Date.getTime\<close>\<close>

text \<open>
  \<^verbatim>\<open>new Date(s).getTime()\<close> is a whole number of milliseconds, or \<^verbatim>\<open>NaN\<close> when the
  string is not a date. Such a number is an \<open>int option\<close> with \<open>None\<close> for \<^verbatim>\<open>NaN\<close>.
  The date parser belongs to the JavaScript engine, not to the repository: every function
  below that parses a date takes it as the parameter \<open>dt\<close>.
\<close>

type_synonym jsnum = "int option"

type_synonym date_parser = "string \<Rightarrow> jsnum"

text \<open>\<^verbatim>\<open>a >= b\<close>, \<^verbatim>\<open>a > b\<close> and the truthiness of a number: any comparison with
  \<^verbatim>\<open>NaN\<close> is false; \<^verbatim>\<open>0\<close> and \<^verbatim>\<open>NaN\<close> are falsy.\<close>

definition num_ge :: "jsnum \<Rightarrow> jsnum \<Rightarrow> bool" where
  "num_ge a b = (case a of None \<Rightarrow> False | Some x \<Rightarrow> (case b of None \<Rightarrow> False | Some y \<Rightarrow> y \<le> x))"

definition num_gt :: "jsnum \<Rightarrow> jsnum \<Rightarrow> bool" where
  "num_gt a b = (case a of None \<Rightarrow> False | Some x \<Rightarrow> (case b of None \<Rightarrow> False | Some y \<Rightarrow> y < x))"

definition num_truthy :: "jsnum \<Rightarrow> bool" where
  "num_truthy a = (case a of None \<Rightarrow> False | Some x \<Rightarrow> x \<noteq> 0)"

text \<open>\<^verbatim>\<open>s ? new Date(s).getTime() : 0\<close>\<close>

definition timeOf :: "date_parser \<Rightarrow> string \<Rightarrow> jsnum" where
  "timeOf dt s = (if s \<noteq> [] then dt s else Some 0)"

text \<open>
  A table of ISO-8601 instants with their epoch milliseconds, for the concrete runs below.
  It agrees with \<^verbatim>\<open>Date\<close> on the strings it lists. The only unlisted string looked up
  below is \<open>not a date\<close>, which \<^verbatim>\<open>Date\<close> cannot parse: its time is \<^verbatim>\<open>NaN\<close>, here \<open>None\<close>.
\<close>

definition sampleDate :: date_parser where
  "sampleDate = map_of
     [(''1970-01-01T00:00:00.050Z'', 50),
      (''1970-01-01T00:00:00.100Z'', 100),
      (''1970-01-01T00:00:00.200Z'', 200),
      (''1970-01-01T00:00:00.000Z'', 0),
      (''1969-12-31T23:59:59.000Z'', - 1000)]"

section \<open>Conversation sync engine: \<^verbatim>\<open>fetchConversations\<close>\<close>

text \<open>\<^verbatim>\<open>c.unreadCount ?? (c.unread ? 1 : 0)\<close>\<close>

definition unreadValue :: "Conversation \<Rightarrow> int" where
  "unreadValue c = (case unreadCount c of Some n \<Rightarrow> n | None \<Rightarrow> (if unread c = Some True then 1 else 0))"

definition isInbound :: "Conversation \<Rightarrow> bool" where
  "isInbound current \<longleftrightarrow>
     lastMessageDirection current = Some ''inbound'' \<or> lastMessageDirection current = Some ''INBOUND''"

text \<open>\<^verbatim>\<open>const prevMap = new Map(); for (const c of prevList) prevMap.set(c._id, c)\<close>:
  a later entry with the same identifier replaces an earlier one.\<close>

definition prevMapOf :: "Conversation list \<Rightarrow> (string \<rightharpoonup> Conversation)" where
  "prevMapOf prevList = foldl (\<lambda>m c. m(conv_id c \<mapsto> c)) Map.empty prevList"

text \<open>\<^verbatim>\<open>prev ? prev.unreadCount ?? (prev.unread ? 1 : 0) : 0\<close> and
  \<^verbatim>\<open>prev?.lastMessageTime ? new Date(prev.lastMessageTime).getTime() : 0\<close>\<close>

definition prevUnreadOf :: "Conversation option \<Rightarrow> int" where
  "prevUnreadOf prev = (case prev of Some p \<Rightarrow> unreadValue p | None \<Rightarrow> 0)"

definition prevTimeOf :: "date_parser \<Rightarrow> Conversation option \<Rightarrow> jsnum" where
  "prevTimeOf dt prev = (case prev of Some p \<Rightarrow> timeOf dt (lastMessageTime p) | None \<Rightarrow> Some 0)"

definition gotNewUnread :: "date_parser \<Rightarrow> Conversation option \<Rightarrow> Conversation \<Rightarrow> bool" where
  "gotNewUnread dt prev current \<longleftrightarrow>
     prevUnreadOf prev < unreadValue current \<and>
     num_ge (timeOf dt (lastMessageTime current)) (prevTimeOf dt prev)"

definition isBrandNewConv :: "Conversation option \<Rightarrow> Conversation \<Rightarrow> bool" where
  "isBrandNewConv prev current \<longleftrightarrow> prev = None \<and> 0 < unreadValue current"

text \<open>The test that guards the update of \<^verbatim>\<open>newestInbound\<close>, for one conversation of the
  fetched list that got past the \<^verbatim>\<open>if (!isInbound) continue\<close>.\<close>

definition newlyNotified :: "date_parser \<Rightarrow> (string \<rightharpoonup> Conversation) \<Rightarrow> Conversation \<Rightarrow> bool" where
  "newlyNotified dt prevMap current \<longleftrightarrow>
     gotNewUnread dt (prevMap (conv_id current)) current \<or> isBrandNewConv (prevMap (conv_id current)) current"

text \<open>The inner \<^verbatim>\<open>if\<close>: the first qualifying conversation is taken; a later one replaces
  the candidate when its time is truthy and strictly greater than the candidate's.\<close>

definition pickNewest :: "date_parser \<Rightarrow> Conversation option \<Rightarrow> Conversation \<Rightarrow> Conversation option" where
  "pickNewest dt newestInbound current =
     (case newestInbound of
        None \<Rightarrow> Some current
      | Some n \<Rightarrow>
          (if num_truthy (timeOf dt (lastMessageTime current)) \<and>
              num_gt (timeOf dt (lastMessageTime current)) (timeOf dt (lastMessageTime n))
           then Some current else Some n))"

text \<open>One turn of \<^verbatim>\<open>for (const current of list)\<close>.\<close>

definition diffStep ::
  "date_parser \<Rightarrow> (string \<rightharpoonup> Conversation) \<Rightarrow> Conversation option \<Rightarrow> Conversation \<Rightarrow> Conversation option" where
  "diffStep dt prevMap newestInbound current =
     (if \<not> isInbound current then newestInbound
      else if newlyNotified dt prevMap current then pickNewest dt newestInbound current
      else newestInbound)"

text \<open>The value of \<^verbatim>\<open>newestInbound\<close> after the block
  \<^verbatim>\<open>if (fromPoll && prevList.length > 0) { ... }\<close>: the banner candidate.\<close>

definition detectNewestInbound ::
  "date_parser \<Rightarrow> bool \<Rightarrow> Conversation list \<Rightarrow> Conversation list \<Rightarrow> Conversation option" where
  "detectNewestInbound dt fromPoll prevList list =
     (if fromPoll \<and> 0 < length prevList
      then foldl (diffStep dt (prevMapOf prevList)) None list
      else None)"

subsection \<open>State of the screen\<close>

text \<open>
  The React state and refs of \<^verbatim>\<open>ConversationsScreen\<close> that the sync engine, the thread
  loader and the deep-link effect read and write. \<open>bannerTimeoutRef\<close> tells whether a
  hide timer is pending. Two fields record network traffic and are read by no handler:
  \<open>pendingMessageFetches\<close> holds the lead of every \<^verbatim>\<open>fetchMessages\<close> call that awaits its
  response, \<open>markReadRequests\<close> the lead of every mark-read request that awaits its answer.
\<close>

record screen =
  conversations :: "Conversation list"
  conversationsRef :: "Conversation list"
  loadingConvs :: bool
  convError :: "string option"
  selectedConv :: "Conversation option"
  messages :: "Message list"
  loadingMessages :: bool
  msgError :: "string option"
  bannerConv :: "Conversation option"
  bannerVisible :: bool
  bannerTimeoutRef :: bool
  pendingMessageFetches :: "string list"
  markReadRequests :: "string list"

definition initialScreen :: screen where
  "initialScreen =
     \<lparr>conversations = [], conversationsRef = [], loadingConvs = False, convError = None,
      selectedConv = None, messages = [], loadingMessages = False, msgError = None,
      bannerConv = None, bannerVisible = False, bannerTimeoutRef = False,
      pendingMessageFetches = [], markReadRequests = []\<rparr>"

text \<open>
  What an awaited \<^verbatim>\<open>fetch\<close> brings back. \<open>Rejected m\<close>: something inside the
  \<^verbatim>\<open>try\<close> threw an error whose message is \<open>m\<close> (the request failed, the body could not
  be read or parsed; \<open>m\<close> is empty when the error has no message). \<open>NotOk t\<close>: a response
  with \<^verbatim>\<open>res.ok\<close> false and body text \<open>t\<close>. \<open>OkArray l\<close>: the body is the array \<open>l\<close>.
  \<open>OkObject l\<close>: the body is an object whose list field (\<^verbatim>\<open>conversations\<close>, \<^verbatim>\<open>messages\<close>)
  is \<open>l\<close>, or is missing.
\<close>

datatype 'a response = Rejected string | NotOk string | OkArray "'a list" | OkObject "'a list option"

text \<open>The list the \<^verbatim>\<open>try\<close> block computes, or the message of the error it throws;
  \<open>failure\<close> is the text of the \<^verbatim>\<open>new Error(...)\<close> thrown on a response that is not ok.\<close>

definition responseList :: "string \<Rightarrow> 'a response \<Rightarrow> string + 'a list" where
  "responseList failure r =
     (case r of
        Rejected m \<Rightarrow> Inl m
      | NotOk t \<Rightarrow> Inl failure
      | OkArray l \<Rightarrow> Inr l
      | OkObject lo \<Rightarrow> Inr (case lo of Some l \<Rightarrow> l | None \<Rightarrow> []))"

text \<open>\<^verbatim>\<open>err?.message || fallback\<close>\<close>

definition messageOr :: "string \<Rightarrow> string \<Rightarrow> string" where
  "messageOr m fallback = (if m \<noteq> [] then m else fallback)"

definition showBannerForConversation :: "Conversation \<Rightarrow> screen \<Rightarrow> screen" where
  "showBannerForConversation conv s = s\<lparr>bannerConv := Some conv, bannerVisible := True, bannerTimeoutRef := True\<rparr>"

text \<open>The callback of the banner's \<^verbatim>\<open>setTimeout\<close>.\<close>

definition bannerTimeoutFires :: "screen \<Rightarrow> screen" where
  "bannerTimeoutFires s = (if bannerTimeoutRef s then s\<lparr>bannerVisible := False\<rparr> else s)"

text \<open>The effect \<^verbatim>\<open>conversationsRef.current = conversations\<close>, run when a render with
  a new list commits.\<close>

definition syncConversationsRef :: "screen \<Rightarrow> screen" where
  "syncConversationsRef s = s\<lparr>conversationsRef := conversations s\<rparr>"

text \<open>\<^verbatim>\<open>fetchConversations\<close> up to its \<^verbatim>\<open>await fetch(...)\<close>.\<close>

definition fetchConversations_begin :: "bool \<Rightarrow> screen \<Rightarrow> screen" where
  "fetchConversations_begin fromPoll s =
     (if \<not> fromPoll then s\<lparr>loadingConvs := True\<rparr> else s)\<lparr>convError := None\<rparr>"

text \<open>\<^verbatim>\<open>fetchConversations\<close> from the moment the response is there: the rest of the
  \<^verbatim>\<open>try\<close>, the \<^verbatim>\<open>catch\<close> and the \<^verbatim>\<open>finally\<close>.\<close>

definition fetchConversations_settle ::
  "date_parser \<Rightarrow> bool \<Rightarrow> Conversation response \<Rightarrow> screen \<Rightarrow> screen" where
  "fetchConversations_settle dt fromPoll r s =
     (let s1 =
        (case responseList ''Failed to load conversations.'' r of
           Inr list \<Rightarrow>
             (let prevList = conversationsRef s;
                  newestInbound = detectNewestInbound dt fromPoll prevList list;
                  s' = s\<lparr>conversations := list\<rparr>
              in if fromPoll then
                   (case newestInbound of Some n \<Rightarrow> showBannerForConversation n s' | None \<Rightarrow> s')
                 else s')
         | Inl m \<Rightarrow>
             s\<lparr>convError := Some (messageOr m ''Failed to load conversations.''), conversations := []\<rparr>)
      in if \<not> fromPoll then s1\<lparr>loadingConvs := False\<rparr> else s1)"

text \<open>A whole refresh with nothing in between: the call, its response, and the commit
  of the render that follows.\<close>

definition fetchConversations :: "date_parser \<Rightarrow> bool \<Rightarrow> Conversation response \<Rightarrow> screen \<Rightarrow> screen" where
  "fetchConversations dt fromPoll r s =
     syncConversationsRef (fetchConversations_settle dt fromPoll r (fetchConversations_begin fromPoll s))"

section \<open>Thread loader: \<^verbatim>\<open>fetchMessages\<close> and the selection\<close>

text \<open>\<^verbatim>\<open>fetchMessages(leadId)\<close> up to its \<^verbatim>\<open>await fetch(...)\<close>.\<close>

definition fetchMessages_begin :: "string \<Rightarrow> screen \<Rightarrow> screen" where
  "fetchMessages_begin lead s =
     (if lead = [] then s
      else s\<lparr>loadingMessages := True, msgError := None,
             pendingMessageFetches := pendingMessageFetches s @ [lead]\<rparr>)"

text \<open>
  \<^verbatim>\<open>fetchMessages(leadId)\<close> from the moment its response is there, up to the next
  \<^verbatim>\<open>await\<close>. The list is stored by \<^verbatim>\<open>setMessages(list)\<close>; the current selection is
  not read. After storing the list the function sends the mark-read request and awaits
  it, so the \<^verbatim>\<open>finally\<close> block has not run yet; on an error the \<^verbatim>\<open>catch\<close> and the
  \<^verbatim>\<open>finally\<close> run at once.
\<close>

definition fetchMessages_settle :: "string \<Rightarrow> Message response \<Rightarrow> screen \<Rightarrow> screen" where
  "fetchMessages_settle lead r s =
     (let s0 = s\<lparr>pendingMessageFetches := remove1 lead (pendingMessageFetches s)\<rparr>
      in case responseList ''Failed to load messages.'' r of
           Inr list \<Rightarrow> s0\<lparr>messages := list, markReadRequests := markReadRequests s0 @ [lead]\<rparr>
         | Inl m \<Rightarrow>
             s0\<lparr>msgError := Some (messageOr m ''Failed to load messages.''), messages := [],
                loadingMessages := False\<rparr>)"

text \<open>
  The end of \<^verbatim>\<open>fetchMessages(leadId)\<close>: the mark-read request was answered, or it
  failed and the inner \<^verbatim>\<open>catch\<close> logged a warning. Either way the \<^verbatim>\<open>finally\<close> block
  runs.
\<close>

definition fetchMessages_finish :: "string \<Rightarrow> screen \<Rightarrow> screen" where
  "fetchMessages_finish lead s =
     s\<lparr>markReadRequests := remove1 lead (markReadRequests s), loadingMessages := False\<rparr>"

text \<open>\<^verbatim>\<open>selectedConv?._id\<close>, the dependency of the effect that loads a thread.\<close>

definition selectedId :: "screen \<Rightarrow> string option" where
  "selectedId s = map_option conv_id (selectedConv s)"

text \<open>The effect body: \<^verbatim>\<open>if (selectedConv?._id) fetchMessages(selectedConv._id); else setMessages([])\<close>.\<close>

definition loadThreadEffect :: "screen \<Rightarrow> screen" where
  "loadThreadEffect s =
     (case selectedConv s of
        Some c \<Rightarrow> (if conv_id c \<noteq> [] then fetchMessages_begin (conv_id c) s else s\<lparr>messages := []\<rparr>)
      | None \<Rightarrow> s\<lparr>messages := []\<rparr>)"

text \<open>\<^verbatim>\<open>setSelectedConv(c)\<close> followed by the commit: the thread effect runs when the
  selected identifier changed.\<close>

definition setSelectedConv :: "Conversation option \<Rightarrow> screen \<Rightarrow> screen" where
  "setSelectedConv c s =
     (let s' = s\<lparr>selectedConv := c\<rparr>
      in if selectedId s' \<noteq> selectedId s then loadThreadEffect s' else s')"

definition handleSelectConversation :: "Conversation \<Rightarrow> screen \<Rightarrow> screen" where
  "handleSelectConversation conv s = setSelectedConv (Some conv) s"

definition handleBannerPress :: "screen \<Rightarrow> screen" where
  "handleBannerPress s =
     (case bannerConv s of
        None \<Rightarrow> s
      | Some b \<Rightarrow>
          (let match = (case find (\<lambda>c. conv_id c = conv_id b) (conversations s) of
                          Some m \<Rightarrow> m | None \<Rightarrow> b)
           in (setSelectedConv (Some match) s)\<lparr>bannerVisible := False\<rparr>))"

section \<open>Deep-link resolver\<close>

text \<open>\<^verbatim>\<open>(p || "").replace(/\D/g, "")\<close>: the decimal digits of the string, in order.\<close>

definition normalizeDigits :: "string option \<Rightarrow> string" where
  "normalizeDigits p = filter (\<lambda>c. c \<in> set ''0123456789'') (case p of Some x \<Rightarrow> x | None \<Rightarrow> [])"

text \<open>\<^verbatim>\<open>s.slice(-10)\<close>: the last ten characters, or all of a shorter string.\<close>

definition sliceLast10 :: "string \<Rightarrow> string" where
  "sliceLast10 s = drop (length s - 10) s"

text \<open>\<^verbatim>\<open>s.endsWith(t)\<close>\<close>

definition endsWith :: "string \<Rightarrow> string \<Rightarrow> bool" where
  "endsWith s t \<longleftrightarrow> length t \<le> length s \<and> drop (length s - length t) s = t"

text \<open>The truthiness of an optional string prop.\<close>

definition truthy :: "string option \<Rightarrow> bool" where
  "truthy x = (case x of Some v \<Rightarrow> v \<noteq> [] | None \<Rightarrow> False)"

text \<open>The value of \<^verbatim>\<open>target\<close> when the effect reaches \<^verbatim>\<open>if (target)\<close>.\<close>

definition findDeepLinkTarget ::
  "Conversation list \<Rightarrow> string option \<Rightarrow> string option \<Rightarrow> Conversation option" where
  "findDeepLinkTarget convs initialConversationId initialPhone =
     (let target =
        (if truthy initialConversationId
         then find (\<lambda>c. Some (conv_id c) = initialConversationId) convs
         else None)
      in if target = None \<and> truthy initialPhone then
           (let targetDigits = normalizeDigits initialPhone;
                targetLast10 = sliceLast10 targetDigits
            in if targetLast10 \<noteq> []
               then find (\<lambda>c. endsWith (normalizeDigits (Some (phone c))) targetLast10) convs
               else target)
         else target)"

text \<open>
  The deep-link effect. The boolean of the result tells whether the effect selected a
  conversation and so called \<^verbatim>\<open>onClearInitialTarget\<close>.
\<close>

definition deepLinkEffect :: "string option \<Rightarrow> string option \<Rightarrow> screen \<Rightarrow> screen \<times> bool" where
  "deepLinkEffect initialConversationId initialPhone s =
     (if selectedConv s \<noteq> None then (s, False)
      else if \<not> truthy initialConversationId \<and> \<not> truthy initialPhone then (s, False)
      else if length (conversations s) = 0 then (s, False)
      else (case findDeepLinkTarget (conversations s) initialConversationId initialPhone of
              Some target \<Rightarrow> (setSelectedConv (Some target) s, True)
            | None \<Rightarrow> (s, False)))"

subsection \<open>The wiring in \<^verbatim>\<open>App.tsx\<close>\<close>

text \<open>The pending target that \<^verbatim>\<open>App\<close> keeps in its state. Its field \<^verbatim>\<open>kind\<close> has the
  single value \<^verbatim>\<open>"conversation"\<close> and is left out.\<close>

record ConversationDeepLinkTarget =
  fromPhone :: "string option"
  conversationId :: "string option"
  messageId :: "string option"

record app =
  deepLinkTarget :: "ConversationDeepLinkTarget option"
  conversationsScreen :: screen

text \<open>\<^verbatim>\<open>x || undefined\<close>\<close>

definition orUndefined :: "string option \<Rightarrow> string option" where
  "orUndefined x = (if truthy x then x else None)"

text \<open>The props \<^verbatim>\<open>initialConversationId\<close> and \<^verbatim>\<open>initialPhone\<close> that \<^verbatim>\<open>App\<close> passes.\<close>

definition initialConversationIdOf :: "app \<Rightarrow> string option" where
  "initialConversationIdOf a =
     (case deepLinkTarget a of Some d \<Rightarrow> orUndefined (conversationId d) | None \<Rightarrow> None)"

definition initialPhoneOf :: "app \<Rightarrow> string option" where
  "initialPhoneOf a =
     (case deepLinkTarget a of Some d \<Rightarrow> orUndefined (fromPhone d) | None \<Rightarrow> None)"

text \<open>The effect run with the props of the current render;
  \<^verbatim>\<open>onClearInitialTarget = () => setDeepLinkTarget(null)\<close>.\<close>

definition appDeepLinkEffect :: "app \<Rightarrow> app" where
  "appDeepLinkEffect a =
     (case deepLinkEffect (initialConversationIdOf a) (initialPhoneOf a) (conversationsScreen a) of
        (s, cleared) \<Rightarrow>
          a\<lparr>conversationsScreen := s,
            deepLinkTarget := (if cleared then None else deepLinkTarget a)\<rparr>)"

section \<open>Events of the screen\<close>

text \<open>
  The screen runs on one event loop: a handler runs to its next \<^verbatim>\<open>await\<close>, and a
  response is one more event. \<open>MessagesSettled lead r\<close> is the response \<open>r\<close> to a
  \<^verbatim>\<open>fetchMessages(lead)\<close> call; it can only happen while such a call is pending.
  \<open>MarkReadSettled lead\<close> is the end of the mark-read request of such a call.
\<close>

datatype event =
    ConversationsRequested bool
  | ConversationsSettled bool "Conversation response"
  | SelectConversation Conversation
  | BannerPress
  | BannerTimeout
  | MessagesSettled string "Message response"
  | MarkReadSettled string

definition handleEvent :: "date_parser \<Rightarrow> event \<Rightarrow> screen \<Rightarrow> screen" where
  "handleEvent dt ev s =
     (case ev of
        ConversationsRequested fromPoll \<Rightarrow> fetchConversations_begin fromPoll s
      | ConversationsSettled fromPoll r \<Rightarrow> syncConversationsRef (fetchConversations_settle dt fromPoll r s)
      | SelectConversation conv \<Rightarrow> handleSelectConversation conv s
      | BannerPress \<Rightarrow> handleBannerPress s
      | BannerTimeout \<Rightarrow> bannerTimeoutFires s
      | MessagesSettled lead r \<Rightarrow>
          (if lead \<in> set (pendingMessageFetches s) then fetchMessages_settle lead r s else s)
      | MarkReadSettled lead \<Rightarrow>
          (if lead \<in> set (markReadRequests s) then fetchMessages_finish lead s else s))"

text \<open>A run of the thread loader alone.\<close>

definition runEvents :: "date_parser \<Rightarrow> event list \<Rightarrow> screen \<Rightarrow> screen" where
  "runEvents dt evs s = foldl (\<lambda>st ev. handleEvent dt ev st) s evs"

text \<open>
  A run in which each event comes with the deep-link props of the render it causes,
  whatever they are (props of an earlier render included). The number counts the
  selections the deep-link effect made.
\<close>

definition stepWithProps ::
  "date_parser \<Rightarrow> screen \<times> nat \<Rightarrow> (string option \<times> string option) \<times> event \<Rightarrow> screen \<times> nat" where
  "stepWithProps dt sn pe =
     (case deepLinkEffect (fst (fst pe)) (snd (fst pe)) (handleEvent dt (snd pe) (fst sn)) of
        (s', cleared) \<Rightarrow> (s', if cleared then Suc (snd sn) else snd sn))"

definition runWithProps ::
  "date_parser \<Rightarrow> ((string option \<times> string option) \<times> event) list \<Rightarrow> screen \<times> nat \<Rightarrow> screen \<times> nat" where
  "runWithProps dt pes sn = foldl (stepWithProps dt) sn pes"

section \<open>Socket client: \<^verbatim>\<open>lib/socketClient.ts\<close>\<close>

text \<open>
  Socket objects live in a store, a list indexed by the object's identity; the two globals
  \<^verbatim>\<open>__crm_mobile_socket__\<close> and \<^verbatim>\<open>__crm_mobile_socket_email__\<close> hold a reference and a
  string, \<open>None\<close> when \<^verbatim>\<open>null\<close> or \<^verbatim>\<open>undefined\<close>.

  A listener is a closure. \<open>OnConnectError k\<close>, \<open>OnError k\<close> and \<open>OnConnect k\<close> are the three
  closures that \<^verbatim>\<open>createClient\<close> makes for the socket \<open>k\<close> it builds; \<open>ViewHandler n\<close> is
  a callback a view registers with \<^verbatim>\<open>socket.on\<close>.

  The library call \<^verbatim>\<open>io(base, {..., autoConnect: false})\<close> is taken to return a new socket
  object that is not connected and has no listener; the endpoint that \<^verbatim>\<open>resolveEndpoint\<close>
  reads from the environment is an argument of that call and does not reach the registry. \<open>connectRequested\<close> records a call of
  \<^verbatim>\<open>socket.connect()\<close> that the transport has not answered yet, \<open>emitted\<close> the events
  sent with \<^verbatim>\<open>socket.emit\<close>.
\<close>

datatype handler = OnConnectError nat | OnError nat | OnConnect nat | ViewHandler nat

record sock =
  connected :: bool
  connectRequested :: bool
  listeners :: "(string \<times> handler) list"
  emitted :: "(string \<times> string) list"

record registry =
  crm_mobile_socket :: "nat option"
  crm_mobile_socket_email :: "string option"
  sockets :: "sock list"

definition initialRegistry :: registry where
  "initialRegistry = \<lparr>crm_mobile_socket = None, crm_mobile_socket_email = None, sockets = []\<rparr>"

text \<open>\<^verbatim>\<open>String.prototype.trim\<close> and \<^verbatim>\<open>toLowerCase\<close> on ASCII text.\<close>

definition isSpaceChar :: "char \<Rightarrow> bool" where
  "isSpaceChar c \<longleftrightarrow> c \<in> set [CHR '' '', CHR 0x09, CHR 0x0A, CHR 0x0B, CHR 0x0C, CHR 0x0D]"

definition trim :: "string \<Rightarrow> string" where
  "trim s = rev (dropWhile isSpaceChar (rev (dropWhile isSpaceChar s)))"

definition toLowerCase :: "string \<Rightarrow> string" where
  "toLowerCase s =
     map (\<lambda>c. case map_of (zip ''ABCDEFGHIJKLMNOPQRSTUVWXYZ'' ''abcdefghijklmnopqrstuvwxyz'') c of
                 Some l \<Rightarrow> l | None \<Rightarrow> c) s"

text \<open>Methods of a socket object, on the store.\<close>

definition updateSocket :: "nat \<Rightarrow> (sock \<Rightarrow> sock) \<Rightarrow> registry \<Rightarrow> registry" where
  "updateSocket r f g = g\<lparr>sockets := (sockets g)[r := f (sockets g ! r)]\<rparr>"

definition socket_on :: "nat \<Rightarrow> string \<Rightarrow> handler \<Rightarrow> registry \<Rightarrow> registry" where
  "socket_on r ev h g = updateSocket r (\<lambda>so. so\<lparr>listeners := listeners so @ [(ev, h)]\<rparr>) g"

definition socket_off :: "nat \<Rightarrow> string \<Rightarrow> handler \<Rightarrow> registry \<Rightarrow> registry" where
  "socket_off r ev h g = updateSocket r (\<lambda>so. so\<lparr>listeners := remove1 (ev, h) (listeners so)\<rparr>) g"

definition socket_removeAllListeners :: "nat \<Rightarrow> registry \<Rightarrow> registry" where
  "socket_removeAllListeners r g = updateSocket r (\<lambda>so. so\<lparr>listeners := []\<rparr>) g"

definition socket_connect :: "nat \<Rightarrow> registry \<Rightarrow> registry" where
  "socket_connect r g = updateSocket r (\<lambda>so. so\<lparr>connectRequested := True\<rparr>) g"

definition socket_disconnect :: "nat \<Rightarrow> registry \<Rightarrow> registry" where
  "socket_disconnect r g = updateSocket r (\<lambda>so. so\<lparr>connected := False, connectRequested := False\<rparr>) g"

definition socket_emit :: "nat \<Rightarrow> string \<Rightarrow> string \<Rightarrow> registry \<Rightarrow> registry" where
  "socket_emit r ev payload g = updateSocket r (\<lambda>so. so\<lparr>emitted := emitted so @ [(ev, payload)]\<rparr>) g"

text \<open>The listeners of socket \<open>r\<close> that fire on event \<open>ev\<close>, in order of registration.\<close>

definition handlersFor :: "nat \<Rightarrow> string \<Rightarrow> registry \<Rightarrow> handler list" where
  "handlersFor r ev g = map snd (filter (\<lambda>l. fst l = ev) (listeners (sockets g ! r)))"

text \<open>What a closure does to the registry when it fires. The \<^verbatim>\<open>connect\<close> closure reads
  the stored identity and joins its room; the other two log.\<close>

definition runHandler :: "registry \<Rightarrow> handler \<Rightarrow> registry" where
  "runHandler g h =
     (case h of
        OnConnect k \<Rightarrow>
          (case crm_mobile_socket_email g of
             Some email \<Rightarrow> (if email \<noteq> [] then socket_emit k ''join'' (toLowerCase email) g else g)
           | None \<Rightarrow> g)
      | _ \<Rightarrow> g)"

text \<open>The transport reports that socket \<open>r\<close> is connected.\<close>

definition transportConnected :: "nat \<Rightarrow> registry \<Rightarrow> registry" where
  "transportConnected r g =
     (let g1 = updateSocket r (\<lambda>so. so\<lparr>connected := True, connectRequested := False\<rparr>) g
      in foldl runHandler g1 (handlersFor r ''connect'' g1))"

definition createClient :: "registry \<Rightarrow> registry \<times> nat" where
  "createClient g =
     (let r = length (sockets g);
          socket = \<lparr>connected = False, connectRequested = False, listeners = [], emitted = []\<rparr>;
          g1 = g\<lparr>sockets := sockets g @ [socket]\<rparr>;
          g2 = socket_on r ''connect_error'' (OnConnectError r) g1;
          g3 = socket_on r ''error'' (OnError r) g2;
          g4 = socket_on r ''connect'' (OnConnect r) g3
      in (g4, r))"

text \<open>\<^verbatim>\<open>getSocket\<close>. Its first line, \<^verbatim>\<open>if (!global) return null\<close>, never returns: the
  global object exists in every JavaScript runtime.\<close>

definition getSocket :: "registry \<Rightarrow> registry \<times> nat option" where
  "getSocket g =
     (case crm_mobile_socket g of
        Some r \<Rightarrow> (g, Some r)
      | None \<Rightarrow> (case createClient g of (g1, r) \<Rightarrow> (g1\<lparr>crm_mobile_socket := Some r\<rparr>, Some r)))"

definition connectAndJoin :: "string option \<Rightarrow> registry \<Rightarrow> registry \<times> nat option" where
  "connectAndJoin userEmail g =
     (case getSocket g of
        (g1, None) \<Rightarrow> (g1, None)
      | (g1, Some r) \<Rightarrow>
          (let normalized = toLowerCase (trim (case userEmail of Some e \<Rightarrow> e | None \<Rightarrow> []));
               g2 = g1\<lparr>crm_mobile_socket_email := (if normalized \<noteq> [] then Some normalized else None)\<rparr>;
               g3 = (if \<not> connected (sockets g2 ! r) then socket_connect r g2 else g2);
               g4 = (if normalized \<noteq> [] then socket_emit r ''join'' normalized g3 else g3)
           in (g4, Some r)))"

definition disconnectSocket :: "registry \<Rightarrow> registry" where
  "disconnectSocket g =
     (case getSocket g of
        (g1, socket) \<Rightarrow>
          (let g2 = (case socket of
                       Some r \<Rightarrow> socket_disconnect r (socket_removeAllListeners r g1)
                     | None \<Rightarrow> g1)
           in g2\<lparr>crm_mobile_socket := None, crm_mobile_socket_email := None\<rparr>))"

text \<open>Calls of the two getters, and a run of them that collects what each returns.\<close>

datatype call = GetSocket | ConnectAndJoin "string option"

definition doCall :: "call \<Rightarrow> registry \<Rightarrow> registry \<times> nat option" where
  "doCall c g = (case c of GetSocket \<Rightarrow> getSocket g | ConnectAndJoin e \<Rightarrow> connectAndJoin e g)"

fun runCalls :: "call list \<Rightarrow> registry \<Rightarrow> registry \<times> nat option list" where
  "runCalls [] g = (g, [])"
| "runCalls (c # cs) g =
     (case doCall c g of (g1, r) \<Rightarrow> (case runCalls cs g1 of (g2, rs) \<Rightarrow> (g2, r # rs)))"

text \<open>
  A registry is well formed when its stored reference points into the store and the
  closures of \<^verbatim>\<open>createClient\<close> found in the store belong to sockets of the store.
\<close>

definition handlerOwner :: "handler \<Rightarrow> nat option" where
  "handlerOwner h =
     (case h of OnConnectError k \<Rightarrow> Some k | OnError k \<Rightarrow> Some k | OnConnect k \<Rightarrow> Some k
      | ViewHandler n \<Rightarrow> None)"

definition registeredHandlers :: "registry \<Rightarrow> handler set" where
  "registeredHandlers g = (\<Union>so \<in> set (sockets g). snd ` set (listeners so))"

definition wellFormed :: "registry \<Rightarrow> bool" where
  "wellFormed g \<longleftrightarrow>
     (\<forall>r. crm_mobile_socket g = Some r \<longrightarrow> r < length (sockets g)) \<and>
     (\<forall>h \<in> registeredHandlers g. \<forall>k. handlerOwner h = Some k \<longrightarrow> k < length (sockets g))"

section \<open>Sample data\<close>

text \<open>A conversation with the given identifier, phone, time of the last message, unread
  count and direction.\<close>

definition sampleConv :: "string \<Rightarrow> string \<Rightarrow> string \<Rightarrow> int \<Rightarrow> string \<Rightarrow> Conversation" where
  "sampleConv i p t u d =
     \<lparr>conv_id = i, name = ''Lead'', phone = p, lastMessage = ''hello'', lastMessageTime = t,
      unread = None, unreadCount = Some u, lastMessageDirection = Some d\<rparr>"

definition sampleMessage :: "string \<Rightarrow> string \<Rightarrow> Message" where
  "sampleMessage lead t = \<lparr>msg_text = t, msg_direction = Inbound, leadId = Some lead, date = None\<rparr>"

section \<open>Properties of the sync engine\<close>

lemmas sample_defs =
  sampleConv_def sampleMessage_def sampleDate_def

lemmas engine_defs =
  isInbound_def unreadValue_def prevUnreadOf_def prevTimeOf_def timeOf_def num_ge_def num_gt_def
  num_truthy_def gotNewUnread_def isBrandNewConv_def newlyNotified_def pickNewest_def diffStep_def
  detectNewestInbound_def prevMapOf_def

text \<open>The loop only looks at the inbound conversations that pass the test.\<close>

lemma foldl_diffStep_filter:
  "foldl (diffStep dt pm) acc list =
   foldl (pickNewest dt) acc (filter (\<lambda>c. isInbound c \<and> newlyNotified dt pm c) list)"
  by (induction list arbitrary: acc) (simp_all add: diffStep_def)

lemma newlyNotified_unread:
  "newlyNotified dt pm c \<Longrightarrow> prevUnreadOf (pm (conv_id c)) < unreadValue c"
  by (auto simp: newlyNotified_def gotNewUnread_def isBrandNewConv_def prevUnreadOf_def)

lemma foldl_pickNewest_Some:
  "\<exists>d. foldl (pickNewest dt) (Some n) qs = Some d"
  by (induction qs arbitrary: n) (simp_all add: pickNewest_def)

lemma foldl_pickNewest_nonempty:
  "qs \<noteq> [] \<Longrightarrow> \<exists>d. foldl (pickNewest dt) None qs = Some d"
  by (cases qs) (simp_all add: pickNewest_def foldl_pickNewest_Some)

lemma detect_empty_snapshot: "detectNewestInbound dt fromPoll [] list = None"
  by (simp add: detectNewestInbound_def)

lemma detect_some_when_qualifying:
  assumes "prevList \<noteq> []" and "c \<in> set list" and "isInbound c"
    and "newlyNotified dt (prevMapOf prevList) c"
  shows "\<exists>d. detectNewestInbound dt True prevList list = Some d"
proof -
  have "filter (\<lambda>c. isInbound c \<and> newlyNotified dt (prevMapOf prevList) c) list \<noteq> []"
    using assms(2-4) by (auto simp: filter_empty_conv)
  then show ?thesis
    using assms(1) by (simp add: detectNewestInbound_def foldl_diffStep_filter foldl_pickNewest_nonempty)
qed

lemma detect_singleton:
  "prevList \<noteq> [] \<Longrightarrow>
   detectNewestInbound dt True prevList [c] =
     (if isInbound c \<and> newlyNotified dt (prevMapOf prevList) c then Some c else None)"
  by (simp add: detectNewestInbound_def diffStep_def pickNewest_def)

lemma prevMapOf_Some_nonempty: "prevMapOf prevList k = Some p \<Longrightarrow> prevList \<noteq> []"
  by (auto simp: prevMapOf_def)

text \<open>Among conversations whose times are valid and not before the epoch, the loop keeps
  the first of those with the greatest time.\<close>

lemma pick_latest:
  assumes "qs \<noteq> []"
    and "\<forall>c\<in>set qs. \<exists>t. timeOf dt (lastMessageTime c) = Some t \<and> 0 \<le> t"
  shows "\<exists>i<length qs. foldl (pickNewest dt) None qs = Some (qs ! i) \<and>
           (\<forall>j<length qs. num_ge (timeOf dt (lastMessageTime (qs ! i))) (timeOf dt (lastMessageTime (qs ! j)))) \<and>
           (\<forall>j<i. num_gt (timeOf dt (lastMessageTime (qs ! i))) (timeOf dt (lastMessageTime (qs ! j))))"
  using assms
proof (induction qs rule: rev_induct)
  case Nil
  then show ?case by simp
next
  case (snoc x xs)
  let ?T = "\<lambda>c. timeOf dt (lastMessageTime c)"
  from snoc.prems obtain tx where tx: "?T x = Some tx" "0 \<le> tx" by auto
  show ?case
  proof (cases "xs = []")
    case True
    then show ?thesis using tx by (simp add: pickNewest_def num_ge_def)
  next
    case False
    with snoc obtain i where i: "i < length xs" "foldl (pickNewest dt) None xs = Some (xs ! i)"
      "\<forall>j<length xs. num_ge (?T (xs ! i)) (?T (xs ! j))"
      "\<forall>j<i. num_gt (?T (xs ! i)) (?T (xs ! j))"
      by auto
    from snoc.prems i(1) obtain ti where ti: "?T (xs ! i) = Some ti" "0 \<le> ti"
      by (metis UnCI nth_mem set_append)
    show ?thesis
    proof (cases "ti < tx")
      case True
      have res: "foldl (pickNewest dt) None (xs @ [x]) = Some x"
        using i(2) tx ti True by (simp add: pickNewest_def num_truthy_def num_gt_def)
      have "\<forall>j<length (xs @ [x]). num_ge (?T x) (?T ((xs @ [x]) ! j))"
      proof (intro allI impI)
        fix j assume jlen: "j < length (xs @ [x])"
        show "num_ge (?T x) (?T ((xs @ [x]) ! j))"
        proof (cases "j < length xs")
          case True
          then have "num_ge (?T (xs ! i)) (?T (xs ! j))" using i(3) by simp
          then show ?thesis using True ti tx \<open>ti < tx\<close>
            by (auto simp: num_ge_def nth_append split: option.splits)
        next
          case False
          with jlen have "j = length xs" by simp
          then show ?thesis using tx by (simp add: num_ge_def)
        qed
      qed
      moreover have "\<forall>j<length xs. num_gt (?T x) (?T ((xs @ [x]) ! j))"
      proof (intro allI impI)
        fix j assume j: "j < length xs"
        then have "num_ge (?T (xs ! i)) (?T (xs ! j))" using i(3) by simp
        then show "num_gt (?T x) (?T ((xs @ [x]) ! j))" using j ti tx \<open>ti < tx\<close>
          by (auto simp: num_ge_def num_gt_def nth_append split: option.splits)
      qed
      ultimately show ?thesis using res
        by (intro exI [of _ "length xs"]) simp
    next
      case False
      have res: "foldl (pickNewest dt) None (xs @ [x]) = Some (xs ! i)"
        using i(2) tx ti False by (simp add: pickNewest_def num_truthy_def num_gt_def)
      have "\<forall>j<length (xs @ [x]). num_ge (?T (xs ! i)) (?T ((xs @ [x]) ! j))"
      proof (intro allI impI)
        fix j assume "j < length (xs @ [x])"
        then consider "j < length xs" | "j = length xs" by fastforce
        then show "num_ge (?T (xs ! i)) (?T ((xs @ [x]) ! j))"
        proof cases
          case 1
          then show ?thesis using i(3) by (simp add: nth_append)
        next
          case 2
          then show ?thesis using tx ti False by (simp add: num_ge_def)
        qed
      qed
      then show ?thesis using res i(1) i(4)
        by (intro exI [of _ i]) (simp add: nth_append)
    qed
  qed
qed

lemma num_gt_not_ge: "num_gt a b \<Longrightarrow> \<not> num_ge b a"
  by (auto simp: num_gt_def num_ge_def split: option.splits)

lemma first_latest_unique:
  assumes "i < length qs" "k < length qs"
    and "\<forall>j<length qs. num_ge (T (qs ! i)) (T (qs ! j))" "\<forall>j<i. num_gt (T (qs ! i)) (T (qs ! j))"
    and "\<forall>j<length qs. num_ge (T (qs ! k)) (T (qs ! j))" "\<forall>j<k. num_gt (T (qs ! k)) (T (qs ! j))"
  shows "i = k"
proof (rule ccontr)
  assume "i \<noteq> k"
  then consider "i < k" | "k < i" by linarith
  then show False
  proof cases
    case 1
    then have "num_gt (T (qs ! k)) (T (qs ! i))" using assms(6) by simp
    moreover have "num_ge (T (qs ! i)) (T (qs ! k))" using assms(2,3) by simp
    ultimately show False using num_gt_not_ge by blast
  next
    case 2
    then have "num_gt (T (qs ! i)) (T (qs ! k))" using assms(4) by simp
    moreover have "num_ge (T (qs ! k)) (T (qs ! i))" using assms(1,5) by simp
    ultimately show False using num_gt_not_ge by blast
  qed
qed

text \<open>
  C1 (counterexample). Previous list empty, fetched list with the inbound conversation
  \<open>b\<close> of unread value 2: the poll selects no candidate and shows no banner, where the
  claim expects \<open>b\<close>.
\<close>

theorem empty_snapshot_selects_nothing_counterexample:
  "detectNewestInbound sampleDate True []
     [sampleConv ''b'' ''555-000-1111'' ''1970-01-01T00:00:00.050Z'' 2 ''inbound'']
     \<noteq> Some (sampleConv ''b'' ''555-000-1111'' ''1970-01-01T00:00:00.050Z'' 2 ''inbound'')
   \<and> bannerConv (fetchConversations sampleDate True
        (OkArray [sampleConv ''b'' ''555-000-1111'' ''1970-01-01T00:00:00.050Z'' 2 ''inbound''])
        initialScreen) = None"
  by (simp add: detectNewestInbound_def fetchConversations_def fetchConversations_settle_def
      fetchConversations_begin_def syncConversationsRef_def responseList_def initialScreen_def)

text \<open>
  C1 (amended). With an empty previous list a poll selects no candidate, whatever was
  fetched. The brand-new-conversation rule applies once the previous list holds at least
  one conversation: an inbound conversation of the fetched list that has no previous
  counterpart and an unread value above zero then makes the poll select a candidate,
  and is itself the candidate when it is the only conversation fetched.
\<close>

theorem brand_new_rule_needs_previous_snapshot:
  "detectNewestInbound dt fromPoll [] list = None \<and>
   (prevList \<noteq> [] \<and> prevMapOf prevList (conv_id c) = None \<and> isInbound c \<and> 0 < unreadValue c \<longrightarrow>
      detectNewestInbound dt True prevList [c] = Some c \<and>
      (c \<in> set list \<longrightarrow> (\<exists>d. detectNewestInbound dt True prevList list = Some d)))"
proof -
  have "newlyNotified dt (prevMapOf prevList) c"
    if "prevMapOf prevList (conv_id c) = None" "0 < unreadValue c"
    using that by (simp add: newlyNotified_def isBrandNewConv_def)
  then show ?thesis
    using detect_some_when_qualifying [of prevList c list dt]
    by (auto simp: detect_empty_snapshot detect_singleton)
qed

theorem brand_new_rule_needs_previous_snapshot_witness:
  "detectNewestInbound sampleDate True []
     [sampleConv ''b'' ''555-000-1111'' ''1970-01-01T00:00:00.050Z'' 2 ''inbound''] = None \<and>
   detectNewestInbound sampleDate True
     [sampleConv ''a'' ''555-123-4567'' ''1970-01-01T00:00:00.100Z'' 0 ''inbound'']
     [sampleConv ''b'' ''555-000-1111'' ''1970-01-01T00:00:00.050Z'' 2 ''inbound'']
   = Some (sampleConv ''b'' ''555-000-1111'' ''1970-01-01T00:00:00.050Z'' 2 ''inbound'')"
proof -
  let ?a = "sampleConv ''a'' ''555-123-4567'' ''1970-01-01T00:00:00.100Z'' 0 ''inbound''"
  let ?b = "sampleConv ''b'' ''555-000-1111'' ''1970-01-01T00:00:00.050Z'' 2 ''inbound''"
  have h: "[?a] \<noteq> [] \<and> prevMapOf [?a] (conv_id ?b) = None \<and> isInbound ?b \<and> 0 < unreadValue ?b"
    by (simp add: prevMapOf_def sampleConv_def isInbound_def unreadValue_def)
  show ?thesis
    using h brand_new_rule_needs_previous_snapshot [of sampleDate True "[?b]" "[?a]" ?b]
    by blast
qed

text \<open>
  C3 (counterexample). Conversation \<open>a\<close> is inbound, has a counterpart in the previous
  snapshot, and its unread count went from 0 to 1, but its last-message time cannot be
  parsed. That time is no time at all, so it is not older than the previous one; yet the
  comparison \<^verbatim>\<open>currTime >= prevTime\<close> is false on \<^verbatim>\<open>NaN\<close> and the conversation does
  not qualify.
\<close>

theorem unparsable_time_does_not_qualify_counterexample:
  "prevMapOf [sampleConv ''a'' ''555-123-4567'' ''1970-01-01T00:00:00.100Z'' 0 ''inbound'']
     (conv_id (sampleConv ''a'' ''555-123-4567'' ''not a date'' 1 ''inbound''))
     = Some (sampleConv ''a'' ''555-123-4567'' ''1970-01-01T00:00:00.100Z'' 0 ''inbound'') \<and>
   lastMessageDirection (sampleConv ''a'' ''555-123-4567'' ''not a date'' 1 ''inbound'') = Some ''inbound'' \<and>
   unreadCount (sampleConv ''a'' ''555-123-4567'' ''1970-01-01T00:00:00.100Z'' 0 ''inbound'') = Some 0 \<and>
   unreadCount (sampleConv ''a'' ''555-123-4567'' ''not a date'' 1 ''inbound'') = Some 1 \<and>
   sampleDate (lastMessageTime (sampleConv ''a'' ''555-123-4567'' ''not a date'' 1 ''inbound'')) = None \<and>
   \<not> (\<exists>tc tp.
        sampleDate (lastMessageTime (sampleConv ''a'' ''555-123-4567'' ''not a date'' 1 ''inbound'')) = Some tc \<and>
        sampleDate (lastMessageTime (sampleConv ''a'' ''555-123-4567'' ''1970-01-01T00:00:00.100Z'' 0 ''inbound'')) = Some tp \<and>
        tc < tp) \<and>
   \<not> newlyNotified sampleDate
       (prevMapOf [sampleConv ''a'' ''555-123-4567'' ''1970-01-01T00:00:00.100Z'' 0 ''inbound''])
       (sampleConv ''a'' ''555-123-4567'' ''not a date'' 1 ''inbound'') \<and>
   detectNewestInbound sampleDate True
     [sampleConv ''a'' ''555-123-4567'' ''1970-01-01T00:00:00.100Z'' 0 ''inbound'']
     [sampleConv ''a'' ''555-123-4567'' ''not a date'' 1 ''inbound''] = None"
  by (simp add: engine_defs sample_defs)

text \<open>The comparison of two times as the loop reads them, said without the loop's own
  functions: an empty string reads as 0, any other string as what the parser gives, and
  the comparison holds when both are numbers in the right order.\<close>

lemma num_ge_timeOf:
  "num_ge (timeOf dt a) (timeOf dt b) \<longleftrightarrow>
     (\<exists>tc tp. (if a = [] then tc = 0 else dt a = Some tc) \<and>
              (if b = [] then tp = 0 else dt b = Some tp) \<and> tp \<le> tc)"
  by (auto simp: num_ge_def timeOf_def split: option.splits)

text \<open>
  C3 (amended). A conversation of the fetched list that is inbound and has a counterpart
  \<open>prev\<close> under the same identifier in the previous snapshot qualifies if and only if its
  unread value (the count when present, else the flag as 0 or 1) is strictly greater
  than that of \<open>prev\<close> and both last-message timestamps are valid times, a missing one
  counting as time 0, with the current one not older than the previous one; fetched
  alone, it is the candidate exactly when it qualifies. For the lists of the claim the
  candidate is conversation \<open>a\<close>; it still is when the time stays the same, and there
  is none when the time goes back.
\<close>

theorem known_conversation_banner_rule:
  "(prevMapOf prevList (conv_id current) = Some prev \<and> isInbound current \<longrightarrow>
      (newlyNotified dt (prevMapOf prevList) current \<longleftrightarrow>
         unreadValue prev < unreadValue current \<and>
         (\<exists>tc tp.
            (if lastMessageTime current = [] then tc = 0 else dt (lastMessageTime current) = Some tc) \<and>
            (if lastMessageTime prev = [] then tp = 0 else dt (lastMessageTime prev) = Some tp) \<and>
            tp \<le> tc)) \<and>
      detectNewestInbound dt True prevList [current] =
        (if newlyNotified dt (prevMapOf prevList) current then Some current else None)) \<and>
   unreadValue (c\<lparr>unreadCount := Some n\<rparr>) = n \<and>
   unreadValue (c\<lparr>unreadCount := None, unread := Some True\<rparr>) = 1 \<and>
   unreadValue (c\<lparr>unreadCount := None, unread := Some False\<rparr>) = 0 \<and>
   unreadValue (c\<lparr>unreadCount := None, unread := None\<rparr>) = 0 \<and>
   detectNewestInbound sampleDate True
     [sampleConv ''a'' ''555-123-4567'' ''1970-01-01T00:00:00.100Z'' 0 ''inbound'']
     [sampleConv ''a'' ''555-123-4567'' ''1970-01-01T00:00:00.200Z'' 1 ''inbound'']
   = Some (sampleConv ''a'' ''555-123-4567'' ''1970-01-01T00:00:00.200Z'' 1 ''inbound'') \<and>
   detectNewestInbound sampleDate True
     [sampleConv ''a'' ''555-123-4567'' ''1970-01-01T00:00:00.100Z'' 0 ''inbound'']
     [sampleConv ''a'' ''555-123-4567'' ''1970-01-01T00:00:00.100Z'' 1 ''inbound'']
   = Some (sampleConv ''a'' ''555-123-4567'' ''1970-01-01T00:00:00.100Z'' 1 ''inbound'') \<and>
   detectNewestInbound sampleDate True
     [sampleConv ''a'' ''555-123-4567'' ''1970-01-01T00:00:00.200Z'' 0 ''inbound'']
     [sampleConv ''a'' ''555-123-4567'' ''1970-01-01T00:00:00.100Z'' 1 ''inbound''] = None \<and>
   detectNewestInbound sampleDate True
     [sampleConv ''a'' ''555-123-4567'' ''1970-01-01T00:00:00.100Z'' 0 ''inbound'']
     [sampleConv ''a'' ''555-123-4567'' [] 1 ''inbound''] = None"
proof -
  have iff: "newlyNotified dt (prevMapOf prevList) current \<longleftrightarrow>
         unreadValue prev < unreadValue current \<and>
         (\<exists>tc tp.
            (if lastMessageTime current = [] then tc = 0 else dt (lastMessageTime current) = Some tc) \<and>
            (if lastMessageTime prev = [] then tp = 0 else dt (lastMessageTime prev) = Some tp) \<and>
            tp \<le> tc)"
    if "prevMapOf prevList (conv_id current) = Some prev"
    using that
    by (simp add: newlyNotified_def gotNewUnread_def isBrandNewConv_def prevUnreadOf_def prevTimeOf_def
        num_ge_timeOf)
  have one: "detectNewestInbound dt True prevList [current] =
        (if newlyNotified dt (prevMapOf prevList) current then Some current else None)"
    if "prevMapOf prevList (conv_id current) = Some prev" "isInbound current"
    using that(2) prevMapOf_Some_nonempty [OF that(1)]
    by (simp add: detect_singleton)
  have ex1: "detectNewestInbound sampleDate True
     [sampleConv ''a'' ''555-123-4567'' ''1970-01-01T00:00:00.100Z'' 0 ''inbound'']
     [sampleConv ''a'' ''555-123-4567'' ''1970-01-01T00:00:00.200Z'' 1 ''inbound'']
   = Some (sampleConv ''a'' ''555-123-4567'' ''1970-01-01T00:00:00.200Z'' 1 ''inbound'')"
    by (simp add: engine_defs sample_defs)
  have ex2: "detectNewestInbound sampleDate True
     [sampleConv ''a'' ''555-123-4567'' ''1970-01-01T00:00:00.100Z'' 0 ''inbound'']
     [sampleConv ''a'' ''555-123-4567'' ''1970-01-01T00:00:00.100Z'' 1 ''inbound'']
   = Some (sampleConv ''a'' ''555-123-4567'' ''1970-01-01T00:00:00.100Z'' 1 ''inbound'')"
    by (simp add: engine_defs sample_defs)
  have ex3: "detectNewestInbound sampleDate True
     [sampleConv ''a'' ''555-123-4567'' ''1970-01-01T00:00:00.200Z'' 0 ''inbound'']
     [sampleConv ''a'' ''555-123-4567'' ''1970-01-01T00:00:00.100Z'' 1 ''inbound''] = None"
    by (simp add: engine_defs sample_defs)
  have ex4: "detectNewestInbound sampleDate True
     [sampleConv ''a'' ''555-123-4567'' ''1970-01-01T00:00:00.100Z'' 0 ''inbound'']
     [sampleConv ''a'' ''555-123-4567'' [] 1 ''inbound''] = None"
    by (simp add: engine_defs sample_defs)
  have uv: "unreadValue (c\<lparr>unreadCount := Some n\<rparr>) = n \<and>
   unreadValue (c\<lparr>unreadCount := None, unread := Some True\<rparr>) = 1 \<and>
   unreadValue (c\<lparr>unreadCount := None, unread := Some False\<rparr>) = 0 \<and>
   unreadValue (c\<lparr>unreadCount := None, unread := None\<rparr>) = 0"
    by (simp add: unreadValue_def)
  show ?thesis
    using iff one ex1 ex2 ex3 ex4 uv by blast
qed

theorem known_conversation_banner_rule_witness:
  "prevMapOf [sampleConv ''a'' ''555-123-4567'' ''1970-01-01T00:00:00.100Z'' 0 ''inbound'']
     (conv_id (sampleConv ''a'' ''555-123-4567'' ''1970-01-01T00:00:00.200Z'' 1 ''inbound''))
     = Some (sampleConv ''a'' ''555-123-4567'' ''1970-01-01T00:00:00.100Z'' 0 ''inbound'') \<and>
   isInbound (sampleConv ''a'' ''555-123-4567'' ''1970-01-01T00:00:00.200Z'' 1 ''inbound'') \<and>
   newlyNotified sampleDate
     (prevMapOf [sampleConv ''a'' ''555-123-4567'' ''1970-01-01T00:00:00.100Z'' 0 ''inbound''])
     (sampleConv ''a'' ''555-123-4567'' ''1970-01-01T00:00:00.200Z'' 1 ''inbound'')"
proof -
  let ?p = "sampleConv ''a'' ''555-123-4567'' ''1970-01-01T00:00:00.100Z'' 0 ''inbound''"
  let ?c = "sampleConv ''a'' ''555-123-4567'' ''1970-01-01T00:00:00.200Z'' 1 ''inbound''"
  have h: "prevMapOf [?p] (conv_id ?c) = Some ?p \<and> isInbound ?c"
    by (simp add: prevMapOf_def sampleConv_def isInbound_def)
  have v: "unreadValue ?p < unreadValue ?c \<and>
           (\<exists>tc tp.
              (if lastMessageTime ?c = [] then tc = 0 else sampleDate (lastMessageTime ?c) = Some tc) \<and>
              (if lastMessageTime ?p = [] then tp = 0 else sampleDate (lastMessageTime ?p) = Some tp) \<and>
              tp \<le> tc)"
    by (simp add: sampleConv_def unreadValue_def sampleDate_def)
  show ?thesis
    using h v known_conversation_banner_rule [of "[?p]" ?c ?p sampleDate]
    by blast
qed

text \<open>
  C4. When no inbound conversation of the fetched list \<open>L2\<close> has an unread value above
  its unread value in the previous list \<open>L1\<close> (0 when it is not in \<open>L1\<close>), the poll
  selects no candidate, and a refresh that starts from snapshot \<open>L1\<close> leaves the banner
  as it was.
\<close>

theorem no_unread_increase_no_banner:
  assumes "\<forall>c\<in>set L2. isInbound c \<longrightarrow> unreadValue c \<le> prevUnreadOf (prevMapOf L1 (conv_id c))"
  shows "detectNewestInbound dt fromPoll L1 L2 = None \<and>
         (conversationsRef s = L1 \<longrightarrow>
            bannerConv (fetchConversations dt fromPoll (OkArray L2) s) = bannerConv s \<and>
            bannerVisible (fetchConversations dt fromPoll (OkArray L2) s) = bannerVisible s \<and>
            conversations (fetchConversations dt fromPoll (OkArray L2) s) = L2)"
proof -
  have "filter (\<lambda>c. isInbound c \<and> newlyNotified dt (prevMapOf L1) c) L2 = []"
    using assms newlyNotified_unread [of dt "prevMapOf L1"] by (fastforce simp: filter_empty_conv)
  then have none: "detectNewestInbound dt fp L1 L2 = None" for fp
    by (simp add: detectNewestInbound_def foldl_diffStep_filter)
  then show ?thesis
    by (simp add: fetchConversations_def fetchConversations_settle_def fetchConversations_begin_def
        syncConversationsRef_def responseList_def Let_def)
qed

theorem no_unread_increase_no_banner_witness:
  "isInbound (sampleConv ''a'' ''555-123-4567'' ''1970-01-01T00:00:00.200Z'' 1 ''inbound'') \<and>
   unreadValue (sampleConv ''a'' ''555-123-4567'' ''1970-01-01T00:00:00.200Z'' 1 ''inbound'')
     \<le> prevUnreadOf
        (prevMapOf [sampleConv ''a'' ''555-123-4567'' ''1970-01-01T00:00:00.200Z'' 1 ''inbound'']
           (conv_id (sampleConv ''a'' ''555-123-4567'' ''1970-01-01T00:00:00.200Z'' 1 ''inbound''))) \<and>
   detectNewestInbound sampleDate True
     [sampleConv ''a'' ''555-123-4567'' ''1970-01-01T00:00:00.200Z'' 1 ''inbound'']
     [sampleConv ''a'' ''555-123-4567'' ''1970-01-01T00:00:00.200Z'' 1 ''inbound''] = None"
proof -
  let ?c = "sampleConv ''a'' ''555-123-4567'' ''1970-01-01T00:00:00.200Z'' 1 ''inbound''"
  have h: "isInbound ?c \<and> unreadValue ?c \<le> prevUnreadOf (prevMapOf [?c] (conv_id ?c))"
    by (simp add: prevMapOf_def sampleConv_def isInbound_def unreadValue_def prevUnreadOf_def)
  then have "\<forall>c\<in>set [?c]. isInbound c \<longrightarrow> unreadValue c \<le> prevUnreadOf (prevMapOf [?c] (conv_id c))"
    by simp
  from no_unread_increase_no_banner [OF this, of sampleDate True initialScreen] h
  show ?thesis by blast
qed

text \<open>
  C5 (counterexample). Two conversations qualify in one poll: \<open>x\<close>, whose last message is
  dated one second before the epoch, and then \<open>y\<close>, dated at the epoch. \<open>y\<close> has the
  later time, and the poll selects \<open>x\<close>: a time of 0 is falsy in the test
  \<^verbatim>\<open>currTime && currTime > ...\<close> and never replaces a candidate.
\<close>

theorem latest_not_selected_counterexample:
  "isInbound (sampleConv ''x'' ''555-000-0001'' ''1969-12-31T23:59:59.000Z'' 1 ''inbound'') \<and>
   newlyNotified sampleDate
     (prevMapOf [sampleConv ''a'' ''555-123-4567'' ''1970-01-01T00:00:00.100Z'' 0 ''inbound''])
     (sampleConv ''x'' ''555-000-0001'' ''1969-12-31T23:59:59.000Z'' 1 ''inbound'') \<and>
   isInbound (sampleConv ''y'' ''555-000-0002'' ''1970-01-01T00:00:00.000Z'' 1 ''inbound'') \<and>
   newlyNotified sampleDate
     (prevMapOf [sampleConv ''a'' ''555-123-4567'' ''1970-01-01T00:00:00.100Z'' 0 ''inbound''])
     (sampleConv ''y'' ''555-000-0002'' ''1970-01-01T00:00:00.000Z'' 1 ''inbound'') \<and>
   num_gt (timeOf sampleDate ''1970-01-01T00:00:00.000Z'') (timeOf sampleDate ''1969-12-31T23:59:59.000Z'') \<and>
   detectNewestInbound sampleDate True
     [sampleConv ''a'' ''555-123-4567'' ''1970-01-01T00:00:00.100Z'' 0 ''inbound'']
     [sampleConv ''x'' ''555-000-0001'' ''1969-12-31T23:59:59.000Z'' 1 ''inbound'',
      sampleConv ''y'' ''555-000-0002'' ''1970-01-01T00:00:00.000Z'' 1 ''inbound'']
   = Some (sampleConv ''x'' ''555-000-0001'' ''1969-12-31T23:59:59.000Z'' 1 ''inbound'')"
  by (simp add: engine_defs sample_defs)

text \<open>
  C5 (amended). Let \<open>qs\<close> be the conversations of the fetched list that qualify, in list
  order, and let each of them have a valid time that is not before the epoch (a missing
  time counts as 0). The conversation at position \<open>i\<close> of \<open>qs\<close> whose time is at least
  that of every other and strictly greater than that of every earlier one (the latest,
  and the first of those that tie for it) is the candidate the poll selects.
\<close>

theorem first_latest_qualifying_is_selected:
  assumes "prevList \<noteq> []"
    and "qs = filter (\<lambda>c. isInbound c \<and> newlyNotified dt (prevMapOf prevList) c) list"
    and "\<forall>c\<in>set qs. \<exists>t. timeOf dt (lastMessageTime c) = Some t \<and> 0 \<le> t"
    and "i < length qs"
    and "\<forall>j<length qs. num_ge (timeOf dt (lastMessageTime (qs ! i))) (timeOf dt (lastMessageTime (qs ! j)))"
    and "\<forall>j<i. num_gt (timeOf dt (lastMessageTime (qs ! i))) (timeOf dt (lastMessageTime (qs ! j)))"
  shows "detectNewestInbound dt True prevList list = Some (qs ! i)"
proof -
  from assms(4) have "qs \<noteq> []" by auto
  from pick_latest [OF this assms(3)] obtain k where k: "k < length qs"
    "foldl (pickNewest dt) None qs = Some (qs ! k)"
    "\<forall>j<length qs. num_ge (timeOf dt (lastMessageTime (qs ! k))) (timeOf dt (lastMessageTime (qs ! j)))"
    "\<forall>j<k. num_gt (timeOf dt (lastMessageTime (qs ! k))) (timeOf dt (lastMessageTime (qs ! j)))"
    by blast
  have "i = k"
    by (rule first_latest_unique [where T = "\<lambda>c. timeOf dt (lastMessageTime c)", OF assms(4) k(1) assms(5,6) k(3,4)])
  then show ?thesis
    using k(2) assms(1,2) by (simp add: detectNewestInbound_def foldl_diffStep_filter)
qed

theorem first_latest_qualifying_is_selected_witness:
  "detectNewestInbound sampleDate True
     [sampleConv ''a'' ''555-123-4567'' ''1970-01-01T00:00:00.100Z'' 0 ''inbound'']
     [sampleConv ''x'' ''555-000-0001'' ''1970-01-01T00:00:00.100Z'' 1 ''inbound'',
      sampleConv ''o'' ''555-000-0009'' ''1970-01-01T00:00:00.200Z'' 5 ''outbound'',
      sampleConv ''y'' ''555-000-0002'' ''1970-01-01T00:00:00.200Z'' 1 ''inbound'',
      sampleConv ''z'' ''555-000-0003'' ''1970-01-01T00:00:00.200Z'' 1 ''inbound'']
   = Some (sampleConv ''y'' ''555-000-0002'' ''1970-01-01T00:00:00.200Z'' 1 ''inbound'')"
proof -
  let ?a = "sampleConv ''a'' ''555-123-4567'' ''1970-01-01T00:00:00.100Z'' 0 ''inbound''"
  let ?x = "sampleConv ''x'' ''555-000-0001'' ''1970-01-01T00:00:00.100Z'' 1 ''inbound''"
  let ?o = "sampleConv ''o'' ''555-000-0009'' ''1970-01-01T00:00:00.200Z'' 5 ''outbound''"
  let ?y = "sampleConv ''y'' ''555-000-0002'' ''1970-01-01T00:00:00.200Z'' 1 ''inbound''"
  let ?z = "sampleConv ''z'' ''555-000-0003'' ''1970-01-01T00:00:00.200Z'' 1 ''inbound''"
  let ?T = "\<lambda>c. timeOf sampleDate (lastMessageTime c)"
  have h1: "[?a] \<noteq> []" by simp
  have h2: "[?x, ?y, ?z] = filter (\<lambda>c. isInbound c \<and> newlyNotified sampleDate (prevMapOf [?a]) c) [?x, ?o, ?y, ?z]"
    by (simp add: engine_defs sample_defs)
  have h3: "\<forall>c\<in>set [?x, ?y, ?z]. \<exists>t. ?T c = Some t \<and> 0 \<le> t"
    by (simp add: sample_defs timeOf_def)
  have h4: "1 < length [?x, ?y, ?z]" by simp
  have h5: "\<forall>j<length [?x, ?y, ?z]. num_ge (?T ([?x, ?y, ?z] ! 1)) (?T ([?x, ?y, ?z] ! j))"
    by (simp add: sample_defs timeOf_def num_ge_def less_Suc_eq all_conj_distrib)
  have h6: "\<forall>j<1. num_gt (?T ([?x, ?y, ?z] ! 1)) (?T ([?x, ?y, ?z] ! j))"
    by (simp add: sample_defs timeOf_def num_gt_def)
  from first_latest_qualifying_is_selected [OF h1 h2 h3 h4 h5 h6]
  show ?thesis by simp
qed

text \<open>
  C10. A failed refresh, in either mode and for either kind of failure, leaves an empty
  conversation list, an empty snapshot and an error message: the thrown error's own
  message, or \<open>Failed to load conversations.\<close> when it has none or when the response was
  not ok. The poll that follows therefore compares against the empty list.
\<close>

theorem failed_refresh_clears_snapshot:
  "conversations (fetchConversations dt fromPoll (Rejected m) s) = [] \<and>
   conversationsRef (fetchConversations dt fromPoll (Rejected m) s) = [] \<and>
   convError (fetchConversations dt fromPoll (Rejected m) s)
     = Some (if m \<noteq> [] then m else ''Failed to load conversations.'') \<and>
   conversations (fetchConversations dt fromPoll (NotOk t) s) = [] \<and>
   conversationsRef (fetchConversations dt fromPoll (NotOk t) s) = [] \<and>
   convError (fetchConversations dt fromPoll (NotOk t) s) = Some ''Failed to load conversations.'' \<and>
   conversations (fetchConversations_settle dt fromPoll (Rejected m) s) = [] \<and>
   conversations (fetchConversations_settle dt fromPoll (NotOk t) s) = [] \<and>
   fetchConversations_settle dt True (OkArray list)
       (fetchConversations_begin True (fetchConversations dt fromPoll (Rejected m) s))
     = (fetchConversations_begin True (fetchConversations dt fromPoll (Rejected m) s))
         \<lparr>conversations := list\<rparr> \<and>
   fetchConversations_settle dt True (OkArray list)
       (fetchConversations_begin True (fetchConversations dt fromPoll (NotOk t) s))
     = (fetchConversations_begin True (fetchConversations dt fromPoll (NotOk t) s))
         \<lparr>conversations := list\<rparr>"
  by (simp add: fetchConversations_def fetchConversations_settle_def fetchConversations_begin_def
      syncConversationsRef_def responseList_def messageOr_def detectNewestInbound_def Let_def)

section \<open>Properties of the thread loader\<close>

lemmas thread_defs =
  runEvents_def handleEvent_def handleSelectConversation_def setSelectedConv_def selectedId_def
  loadThreadEffect_def fetchMessages_begin_def fetchMessages_settle_def responseList_def

text \<open>
  C2 (counterexample). Conversation \<open>a\<close> is selected, then \<open>b\<close>, and then the response to
  the fetch for \<open>a\<close> arrives: its message is stored as the displayed list while \<open>b\<close> is
  the selected conversation.
\<close>

theorem late_response_shown_under_new_thread_counterexample:
  "selectedConv (runEvents sampleDate
      [SelectConversation (sampleConv ''a'' ''555-123-4567'' ''1970-01-01T00:00:00.100Z'' 0 ''inbound''),
       SelectConversation (sampleConv ''b'' ''555-000-1111'' ''1970-01-01T00:00:00.050Z'' 2 ''inbound''),
       MessagesSettled ''a'' (OkArray [sampleMessage ''a'' ''for thread a''])]
      initialScreen)
     = Some (sampleConv ''b'' ''555-000-1111'' ''1970-01-01T00:00:00.050Z'' 2 ''inbound'') \<and>
   messages (runEvents sampleDate
      [SelectConversation (sampleConv ''a'' ''555-123-4567'' ''1970-01-01T00:00:00.100Z'' 0 ''inbound''),
       SelectConversation (sampleConv ''b'' ''555-000-1111'' ''1970-01-01T00:00:00.050Z'' 2 ''inbound''),
       MessagesSettled ''a'' (OkArray [sampleMessage ''a'' ''for thread a''])]
      initialScreen)
     = [sampleMessage ''a'' ''for thread a'']"
  by (simp add: thread_defs sample_defs initialScreen_def)

text \<open>
  C2 (amended). If a message fetch is started by selecting \<open>A\<close> and the selection changes
  to \<open>B\<close> before the fetch resolves, the fetch for \<open>A\<close> is still pending, and the late
  message list for \<open>A\<close> is not discarded: when it arrives it is stored as the displayed
  messages while \<open>B\<close> is selected. In general the list of any pending fetch is stored
  when it arrives, whatever the selection is, and the selection is left as it is.
\<close>

theorem late_response_is_displayed_under_new_selection:
  "(conv_id A \<noteq> [] \<and> conv_id B \<noteq> [] \<and> conv_id A \<noteq> conv_id B \<and> selectedId s \<noteq> Some (conv_id A) \<longrightarrow>
      conv_id A \<in> set (pendingMessageFetches (runEvents dt [SelectConversation A, SelectConversation B] s)) \<and>
      selectedConv (runEvents dt [SelectConversation A, SelectConversation B] s) = Some B \<and>
      selectedConv (runEvents dt
         [SelectConversation A, SelectConversation B, MessagesSettled (conv_id A) (OkArray la)] s) = Some B \<and>
      messages (runEvents dt
         [SelectConversation A, SelectConversation B, MessagesSettled (conv_id A) (OkArray la)] s) = la) \<and>
   (lead \<in> set (pendingMessageFetches s) \<longrightarrow>
      messages (handleEvent dt (MessagesSettled lead (OkArray la)) s) = la \<and>
      messages (handleEvent dt (MessagesSettled lead (OkObject (Some la))) s) = la \<and>
      selectedConv (handleEvent dt (MessagesSettled lead (OkArray la)) s) = selectedConv s \<and>
      selectedConv (handleEvent dt (MessagesSettled lead (OkObject (Some la))) s) = selectedConv s)"
proof -
  have run: "conv_id A \<in> set (pendingMessageFetches (runEvents dt [SelectConversation A, SelectConversation B] s)) \<and>
      selectedConv (runEvents dt [SelectConversation A, SelectConversation B] s) = Some B \<and>
      selectedConv (runEvents dt
         [SelectConversation A, SelectConversation B, MessagesSettled (conv_id A) (OkArray la)] s) = Some B \<and>
      messages (runEvents dt
         [SelectConversation A, SelectConversation B, MessagesSettled (conv_id A) (OkArray la)] s) = la"
    if a: "conv_id A \<noteq> []" and b: "conv_id B \<noteq> []" and ab: "conv_id A \<noteq> conv_id B"
      and sel: "selectedId s \<noteq> Some (conv_id A)"
  proof -
    define s1 where "s1 = handleEvent dt (SelectConversation A) s"
    define s2 where "s2 = handleEvent dt (SelectConversation B) s1"
    define s3 where "s3 = handleEvent dt (MessagesSettled (conv_id A) (OkArray la)) s2"
    have changed: "Some (conv_id A) \<noteq> selectedId s"
      using sel by simp
    have 1: "selectedConv s1 = Some A \<and> conv_id A \<in> set (pendingMessageFetches s1)"
      using a changed
      by (simp add: s1_def handleEvent_def handleSelectConversation_def setSelectedConv_def
          loadThreadEffect_def fetchMessages_begin_def Let_def selectedId_def)
    have 2: "selectedConv s2 = Some B \<and> conv_id A \<in> set (pendingMessageFetches s2)"
      using b ab 1
      by (simp add: s2_def handleEvent_def handleSelectConversation_def setSelectedConv_def
          loadThreadEffect_def fetchMessages_begin_def Let_def selectedId_def)
    have 3: "selectedConv s3 = Some B \<and> messages s3 = la"
      using 2
      by (simp add: s3_def handleEvent_def fetchMessages_settle_def responseList_def Let_def)
    show ?thesis
      using 2 3 by (simp add: runEvents_def s1_def s2_def s3_def)
  qed
  have any: "messages (handleEvent dt (MessagesSettled lead (OkArray la)) s) = la \<and>
      messages (handleEvent dt (MessagesSettled lead (OkObject (Some la))) s) = la \<and>
      selectedConv (handleEvent dt (MessagesSettled lead (OkArray la)) s) = selectedConv s \<and>
      selectedConv (handleEvent dt (MessagesSettled lead (OkObject (Some la))) s) = selectedConv s"
    if "lead \<in> set (pendingMessageFetches s)"
    using that by (simp add: handleEvent_def fetchMessages_settle_def responseList_def Let_def)
  show ?thesis
    using run any by blast
qed

theorem late_response_is_displayed_under_new_selection_witness:
  "messages (runEvents sampleDate
      [SelectConversation (sampleConv ''a'' ''555-123-4567'' ''1970-01-01T00:00:00.100Z'' 0 ''inbound''),
       SelectConversation (sampleConv ''b'' ''555-000-1111'' ''1970-01-01T00:00:00.050Z'' 2 ''inbound''),
       MessagesSettled ''a'' (OkArray [sampleMessage ''a'' ''for thread a''])]
      initialScreen)
     = [sampleMessage ''a'' ''for thread a''] \<and>
   ''a'' \<in> set (pendingMessageFetches (initialScreen\<lparr>pendingMessageFetches := [''a'']\<rparr>)) \<and>
   messages (handleEvent sampleDate (MessagesSettled ''a'' (OkArray [sampleMessage ''a'' ''for thread a'']))
      (initialScreen\<lparr>pendingMessageFetches := [''a'']\<rparr>))
     = [sampleMessage ''a'' ''for thread a'']"
proof -
  let ?A = "sampleConv ''a'' ''555-123-4567'' ''1970-01-01T00:00:00.100Z'' 0 ''inbound''"
  let ?B = "sampleConv ''b'' ''555-000-1111'' ''1970-01-01T00:00:00.050Z'' 2 ''inbound''"
  let ?la = "[sampleMessage ''a'' ''for thread a'']"
  let ?s = "initialScreen\<lparr>pendingMessageFetches := [''a'']\<rparr>"
  have h: "conv_id ?A \<noteq> [] \<and> conv_id ?B \<noteq> [] \<and> conv_id ?A \<noteq> conv_id ?B \<and>
           selectedId initialScreen \<noteq> Some (conv_id ?A)"
    by (simp add: sampleConv_def selectedId_def initialScreen_def)
  have ids: "conv_id ?A = ''a''" by (simp add: sampleConv_def)
  have p: "''a'' \<in> set (pendingMessageFetches ?s)" by simp
  have r1: "messages (runEvents sampleDate
      [SelectConversation ?A, SelectConversation ?B, MessagesSettled (conv_id ?A) (OkArray ?la)]
      initialScreen) = ?la"
    using h late_response_is_displayed_under_new_selection [of ?A ?B initialScreen sampleDate ?la "''a''"]
    by blast
  have r2: "messages (handleEvent sampleDate (MessagesSettled ''a'' (OkArray ?la)) ?s) = ?la"
    using p late_response_is_displayed_under_new_selection [of ?A ?B ?s sampleDate ?la "''a''"]
    by blast
  show ?thesis
    using r1 [unfolded ids] p r2 by blast
qed

section \<open>Properties of the deep-link resolver\<close>

lemmas deeplink_defs =
  findDeepLinkTarget_def truthy_def normalizeDigits_def sliceLast10_def endsWith_def

lemma find_Some_member: "find P xs = Some x \<Longrightarrow> x \<in> set xs"
  by (induction xs) (auto split: if_splits)

lemma endsWith_last10:
  assumes "10 \<le> length t"
  shows "endsWith d (sliceLast10 t) \<longleftrightarrow> 10 \<le> length d \<and> sliceLast10 d = sliceLast10 t"
proof -
  have "length (sliceLast10 t) = 10"
    using assms by (simp add: sliceLast10_def)
  then show ?thesis
    by (auto simp: endsWith_def sliceLast10_def)
qed

lemma findDeepLinkTarget_member: "findDeepLinkTarget convs i p = Some t \<Longrightarrow> t \<in> set convs"
  by (auto simp: findDeepLinkTarget_def Let_def dest: find_Some_member split: if_splits)

lemma selectedConv_setSelectedConv: "selectedConv (setSelectedConv c s) = c"
  by (simp add: setSelectedConv_def loadThreadEffect_def fetchMessages_begin_def Let_def
      split: option.splits)

lemma handleEvent_keeps_selection:
  "selectedConv s \<noteq> None \<Longrightarrow> selectedConv (handleEvent dt ev s) \<noteq> None"
proof (cases ev)
  case (ConversationsRequested fromPoll)
  then show "selectedConv s \<noteq> None \<Longrightarrow> ?thesis"
    by (simp add: handleEvent_def fetchConversations_begin_def)
next
  case (ConversationsSettled fromPoll r)
  then show "selectedConv s \<noteq> None \<Longrightarrow> ?thesis"
    by (simp add: handleEvent_def fetchConversations_settle_def syncConversationsRef_def
        showBannerForConversation_def Let_def split: sum.splits option.splits)
next
  case (SelectConversation conv)
  then show "selectedConv s \<noteq> None \<Longrightarrow> ?thesis"
    by (simp add: handleEvent_def handleSelectConversation_def selectedConv_setSelectedConv)
next
  case BannerPress
  then show "selectedConv s \<noteq> None \<Longrightarrow> ?thesis"
    by (simp add: handleEvent_def handleBannerPress_def selectedConv_setSelectedConv Let_def
        split: option.splits)
next
  case BannerTimeout
  then show "selectedConv s \<noteq> None \<Longrightarrow> ?thesis"
    by (simp add: handleEvent_def bannerTimeoutFires_def)
next
  case (MessagesSettled lead r)
  then show "selectedConv s \<noteq> None \<Longrightarrow> ?thesis"
    by (simp add: handleEvent_def fetchMessages_settle_def Let_def split: sum.splits)
next
  case (MarkReadSettled lead)
  then show "selectedConv s \<noteq> None \<Longrightarrow> ?thesis"
    by (simp add: handleEvent_def fetchMessages_finish_def)
qed

lemma deepLinkEffect_selected: "selectedConv s \<noteq> None \<Longrightarrow> deepLinkEffect i p s = (s, False)"
  by (simp add: deepLinkEffect_def)

lemma runWithProps_selected:
  "selectedConv s \<noteq> None \<Longrightarrow>
   snd (runWithProps dt pes (s, n)) = n \<and> selectedConv (fst (runWithProps dt pes (s, n))) \<noteq> None"
proof (induction pes arbitrary: s)
  case Nil
  then show ?case by (simp add: runWithProps_def)
next
  case (Cons pe pes)
  have keep: "selectedConv (handleEvent dt (snd pe) s) \<noteq> None"
    using Cons.prems by (rule handleEvent_keeps_selection)
  have "stepWithProps dt (s, n) pe = (handleEvent dt (snd pe) s, n)"
    using keep by (simp add: stepWithProps_def deepLinkEffect_selected)
  then show ?case
    using Cons.IH [OF keep] by (simp add: runWithProps_def)
qed

lemma deepLinkEffect_fires:
  assumes "snd (deepLinkEffect i p s)"
  shows "selectedConv s = None \<and> (truthy i \<or> truthy p) \<and> selectedConv (fst (deepLinkEffect i p s)) \<noteq> None"
  using assms
  by (auto simp: deepLinkEffect_def selectedConv_setSelectedConv split: if_splits option.splits)

text \<open>The string helpers of the resolver, said without their definitions.\<close>

lemma endsWith_suffix: "endsWith s t \<longleftrightarrow> suffix t s"
proof
  assume "endsWith s t"
  then have "s = take (length s - length t) s @ t"
    by (metis append_take_drop_id endsWith_def)
  then show "suffix t s"
    by (rule suffixI)
next
  assume "suffix t s"
  then obtain u where "s = u @ t"
    by (auto simp: suffix_def)
  then show "endsWith s t"
    by (simp add: endsWith_def)
qed

lemma sliceLast10_drop: "sliceLast10 d = drop (length d - 10) d"
  by (simp add: sliceLast10_def)

lemma drop_last10_empty: "drop (length d - 10) d = [] \<longleftrightarrow> d = []"
proof -
  have "length d \<le> length d - 10 \<longleftrightarrow> length d = 0"
    by arith
  then show ?thesis
    by simp
qed

lemma suffix_last10:
  fixes d e :: string
  assumes "10 \<le> length d"
  shows "suffix (drop (length d - 10) d) e \<longleftrightarrow>
           10 \<le> length e \<and> drop (length e - 10) e = drop (length d - 10) d"
  using endsWith_last10 [OF assms, of e] by (simp add: endsWith_suffix sliceLast10_drop)

lemma normalizeDigits_append:
  "normalizeDigits (Some (a @ b)) = normalizeDigits (Some a) @ normalizeDigits (Some b)"
  by (simp add: normalizeDigits_def)

lemma normalizeDigits_digits:
  "set a \<subseteq> set ''0123456789'' \<Longrightarrow> normalizeDigits (Some a) = a"
  unfolding normalizeDigits_def by (simp only: option.case filter_id_conv) blast

lemma normalizeDigits_other:
  "ch \<notin> set ''0123456789'' \<Longrightarrow> normalizeDigits (Some [ch]) = []"
  by (simp add: normalizeDigits_def)

text \<open>
  C6 (counterexample). The target phone \<open>4567\<close> selects the conversation whose stored
  phone is \<open>123-4567\<close>: the stored digits \<open>1234567\<close> end with \<open>4567\<close>. Both numbers
  have fewer than ten digits, so their trailing ten digits are all their digits, and
  these differ.
\<close>

theorem short_target_matches_longer_phone_counterexample:
  "findDeepLinkTarget
     [sampleConv ''a'' ''123-4567'' ''1970-01-01T00:00:00.100Z'' 0 ''inbound'']
     None (Some ''4567'')
     = Some (sampleConv ''a'' ''123-4567'' ''1970-01-01T00:00:00.100Z'' 0 ''inbound'') \<and>
   normalizeDigits (Some ''123-4567'') = ''1234567'' \<and>
   normalizeDigits (Some ''4567'') = ''4567'' \<and>
   drop (length ''1234567'' - 10) ''1234567'' = ''1234567'' \<and>
   drop (length ''4567'' - 10) ''4567'' = ''4567'' \<and>
   ''1234567'' \<noteq> ''4567''"
  by (simp add: deeplink_defs sampleConv_def)

text \<open>
  C6 (amended). The resolver yields at most one conversation, a member of the list. When
  the identifier prop is set and a conversation carries it, the first such conversation
  is the result, whatever the phone prop. Only otherwise, and only if the phone prop is
  set and has a digit, both phone numbers are reduced to their decimal digits and the
  result is the first conversation whose digits end with the last ten digits of the
  target, or with all the target's digits when it has fewer than ten; there is no result
  if no conversation does. For a target of ten digits or more this is a match on the
  trailing ten digits of both numbers. The effect selects this result when nothing is
  selected and the list is not empty. \<open>+15551234567\<close> matches \<open>555-123-4567\<close>, an
  identifier match wins over a phone match, and \<open>+15551234567\<close> does not match
  \<open>123-4567\<close>.
\<close>

theorem deep_link_resolution_by_id_then_phone_suffix:
  "(truthy i \<and> find (\<lambda>c. Some (conv_id c) = i) convs = Some t \<longrightarrow>
      findDeepLinkTarget convs i p = Some t) \<and>
   (\<not> truthy i \<or> find (\<lambda>c. Some (conv_id c) = i) convs = None \<longrightarrow>
      findDeepLinkTarget convs i p =
        (if truthy p \<and> normalizeDigits p \<noteq> []
         then find (\<lambda>c. suffix (drop (length (normalizeDigits p) - 10) (normalizeDigits p))
                            (normalizeDigits (Some (phone c)))) convs
         else None)) \<and>
   (10 \<le> length (normalizeDigits p) \<longrightarrow>
      (suffix (drop (length (normalizeDigits p) - 10) (normalizeDigits p)) (normalizeDigits q) \<longleftrightarrow>
         10 \<le> length (normalizeDigits q) \<and>
         drop (length (normalizeDigits q) - 10) (normalizeDigits q)
           = drop (length (normalizeDigits p) - 10) (normalizeDigits p))) \<and>
   (length (normalizeDigits p) < 10 \<longrightarrow>
      drop (length (normalizeDigits p) - 10) (normalizeDigits p) = normalizeDigits p) \<and>
   (findDeepLinkTarget convs i p = Some t \<longrightarrow> t \<in> set convs) \<and>
   (selectedConv s = None \<and> conversations s \<noteq> [] \<and> (truthy i \<or> truthy p) \<longrightarrow>
      deepLinkEffect i p s =
        (case findDeepLinkTarget (conversations s) i p of
           Some target \<Rightarrow> (setSelectedConv (Some target) s, True)
         | None \<Rightarrow> (s, False))) \<and>
   normalizeDigits None = [] \<and>
   normalizeDigits (Some (a @ b)) = normalizeDigits (Some a) @ normalizeDigits (Some b) \<and>
   (set a \<subseteq> set ''0123456789'' \<longrightarrow> normalizeDigits (Some a) = a) \<and>
   (ch \<notin> set ''0123456789'' \<longrightarrow> normalizeDigits (Some [ch]) = []) \<and>
   normalizeDigits (Some ''+1 (555) 123-4567 ext.'') = ''15551234567'' \<and>
   findDeepLinkTarget
     [sampleConv ''a'' ''555-123-4567'' ''1970-01-01T00:00:00.100Z'' 0 ''inbound'']
     None (Some ''+15551234567'')
     = Some (sampleConv ''a'' ''555-123-4567'' ''1970-01-01T00:00:00.100Z'' 0 ''inbound'') \<and>
   findDeepLinkTarget
     [sampleConv ''a'' ''555-123-4567'' ''1970-01-01T00:00:00.100Z'' 0 ''inbound'',
      sampleConv ''b'' ''555-000-1111'' ''1970-01-01T00:00:00.050Z'' 2 ''inbound'']
     (Some ''b'') (Some ''+15551234567'')
     = Some (sampleConv ''b'' ''555-000-1111'' ''1970-01-01T00:00:00.050Z'' 2 ''inbound'') \<and>
   findDeepLinkTarget
     [sampleConv ''a'' ''123-4567'' ''1970-01-01T00:00:00.100Z'' 0 ''inbound'']
     None (Some ''+15551234567'') = None"
proof -
  have a: "findDeepLinkTarget convs i p = Some t"
    if "truthy i" "find (\<lambda>c. Some (conv_id c) = i) convs = Some t"
    using that by (simp add: findDeepLinkTarget_def)
  have last: "sliceLast10 (normalizeDigits p) = [] \<longleftrightarrow> normalizeDigits p = []"
    by (simp only: sliceLast10_drop drop_last10_empty)
  have b: "findDeepLinkTarget convs i p =
        (if truthy p \<and> normalizeDigits p \<noteq> []
         then find (\<lambda>c. suffix (drop (length (normalizeDigits p) - 10) (normalizeDigits p))
                            (normalizeDigits (Some (phone c)))) convs
         else None)"
    if "\<not> truthy i \<or> find (\<lambda>c. Some (conv_id c) = i) convs = None"
  proof -
    have "findDeepLinkTarget convs i p =
        (if truthy p \<and> normalizeDigits p \<noteq> []
         then find (\<lambda>c. suffix (sliceLast10 (normalizeDigits p)) (normalizeDigits (Some (phone c)))) convs
         else None)"
      using that last by (auto simp: findDeepLinkTarget_def Let_def endsWith_suffix)
    then show ?thesis
      by (simp only: sliceLast10_drop)
  qed
  have c: "deepLinkEffect i p s =
        (case findDeepLinkTarget (conversations s) i p of
           Some target \<Rightarrow> (setSelectedConv (Some target) s, True)
         | None \<Rightarrow> (s, False))"
    if "selectedConv s = None" "conversations s \<noteq> []" "truthy i \<or> truthy p"
    using that by (auto simp: deepLinkEffect_def)
  have d: "drop (length (normalizeDigits p) - 10) (normalizeDigits p) = normalizeDigits p"
    if "length (normalizeDigits p) < 10"
    using that by simp
  have n0: "normalizeDigits None = []"
    by (simp add: normalizeDigits_def)
  have e0: "normalizeDigits (Some ''+1 (555) 123-4567 ext.'') = ''15551234567''"
    by (simp add: normalizeDigits_def)
  have e1: "findDeepLinkTarget
     [sampleConv ''a'' ''555-123-4567'' ''1970-01-01T00:00:00.100Z'' 0 ''inbound'']
     None (Some ''+15551234567'')
     = Some (sampleConv ''a'' ''555-123-4567'' ''1970-01-01T00:00:00.100Z'' 0 ''inbound'')"
    by (simp add: deeplink_defs sampleConv_def)
  have e2: "findDeepLinkTarget
     [sampleConv ''a'' ''555-123-4567'' ''1970-01-01T00:00:00.100Z'' 0 ''inbound'',
      sampleConv ''b'' ''555-000-1111'' ''1970-01-01T00:00:00.050Z'' 2 ''inbound'']
     (Some ''b'') (Some ''+15551234567'')
     = Some (sampleConv ''b'' ''555-000-1111'' ''1970-01-01T00:00:00.050Z'' 2 ''inbound'')"
    by (simp add: deeplink_defs sampleConv_def)
  have e3: "findDeepLinkTarget
     [sampleConv ''a'' ''123-4567'' ''1970-01-01T00:00:00.100Z'' 0 ''inbound'']
     None (Some ''+15551234567'') = None"
    by (simp add: deeplink_defs sampleConv_def)
  show ?thesis
    using a b c d n0 e0 e1 e2 e3
      suffix_last10 [of "normalizeDigits p" "normalizeDigits q"]
      findDeepLinkTarget_member [of convs i p t]
      normalizeDigits_append [of a b] normalizeDigits_digits [of a] normalizeDigits_other [of ch]
    by blast
qed

theorem deep_link_resolution_by_id_then_phone_suffix_witness:
  "findDeepLinkTarget
     [sampleConv ''a'' ''555-123-4567'' ''1970-01-01T00:00:00.100Z'' 0 ''inbound'',
      sampleConv ''b'' ''555-000-1111'' ''1970-01-01T00:00:00.050Z'' 2 ''inbound'']
     (Some ''b'') (Some ''+15551234567'')
     = Some (sampleConv ''b'' ''555-000-1111'' ''1970-01-01T00:00:00.050Z'' 2 ''inbound'') \<and>
   findDeepLinkTarget
     [sampleConv ''a'' ''555-123-4567'' ''1970-01-01T00:00:00.100Z'' 0 ''inbound'',
      sampleConv ''b'' ''555-000-1111'' ''1970-01-01T00:00:00.050Z'' 2 ''inbound'']
     (Some ''c'') (Some ''+15551234567'')
     = Some (sampleConv ''a'' ''555-123-4567'' ''1970-01-01T00:00:00.100Z'' 0 ''inbound'') \<and>
   drop (length (normalizeDigits (Some ''555-123-4567'')) - 10) (normalizeDigits (Some ''555-123-4567''))
     = drop (length (normalizeDigits (Some ''+15551234567'')) - 10) (normalizeDigits (Some ''+15551234567'')) \<and>
   drop (length (normalizeDigits (Some ''4567'')) - 10) (normalizeDigits (Some ''4567''))
     = normalizeDigits (Some ''4567'') \<and>
   normalizeDigits (Some ''5551234567'') = ''5551234567'' \<and>
   normalizeDigits (Some ''-'') = [] \<and>
   fst (deepLinkEffect (Some ''b'') (Some ''+15551234567'')
     (initialScreen\<lparr>conversations :=
        [sampleConv ''a'' ''555-123-4567'' ''1970-01-01T00:00:00.100Z'' 0 ''inbound'',
         sampleConv ''b'' ''555-000-1111'' ''1970-01-01T00:00:00.050Z'' 2 ''inbound'']\<rparr>))
     = setSelectedConv (Some (sampleConv ''b'' ''555-000-1111'' ''1970-01-01T00:00:00.050Z'' 2 ''inbound''))
         (initialScreen\<lparr>conversations :=
            [sampleConv ''a'' ''555-123-4567'' ''1970-01-01T00:00:00.100Z'' 0 ''inbound'',
             sampleConv ''b'' ''555-000-1111'' ''1970-01-01T00:00:00.050Z'' 2 ''inbound'']\<rparr>)"
proof -
  let ?a = "sampleConv ''a'' ''555-123-4567'' ''1970-01-01T00:00:00.100Z'' 0 ''inbound''"
  let ?b = "sampleConv ''b'' ''555-000-1111'' ''1970-01-01T00:00:00.050Z'' 2 ''inbound''"
  let ?p = "Some ''+15551234567''"
  let ?q = "Some ''555-123-4567''"
  let ?s = "initialScreen\<lparr>conversations := [?a, ?b]\<rparr>"
  note long = deep_link_resolution_by_id_then_phone_suffix
    [of "Some ''b''" "[?a, ?b]" ?b ?p ?q ?s "''5551234567''" "[]" "CHR ''-''"]
  note other = deep_link_resolution_by_id_then_phone_suffix
    [of "Some ''c''" "[?a, ?b]" ?a ?p ?q ?s "''5551234567''" "[]" "CHR ''-''"]
  note short = deep_link_resolution_by_id_then_phone_suffix
    [of "Some ''c''" "[?a, ?b]" ?a "Some ''4567''" ?q ?s "''5551234567''" "[]" "CHR ''-''"]
  have h1: "truthy (Some ''b'') \<and> find (\<lambda>c. Some (conv_id c) = Some ''b'') [?a, ?b] = Some ?b"
    by (simp add: truthy_def sampleConv_def)
  have h2: "\<not> truthy (Some ''c'') \<or> find (\<lambda>c. Some (conv_id c) = Some ''c'') [?a, ?b] = None"
    by (simp add: sampleConv_def)
  have h3: "10 \<le> length (normalizeDigits ?p)"
    by (simp add: normalizeDigits_def)
  have h4: "suffix (drop (length (normalizeDigits ?p) - 10) (normalizeDigits ?p)) (normalizeDigits ?q)"
    by (simp add: normalizeDigits_def)
  have h5: "selectedConv ?s = None \<and> conversations ?s \<noteq> [] \<and> (truthy (Some ''b'') \<or> truthy ?p)"
    by (simp add: initialScreen_def truthy_def)
  have h6: "length (normalizeDigits (Some ''4567'')) < 10"
    by (simp add: normalizeDigits_def)
  have h7: "set ''5551234567'' \<subseteq> set ''0123456789''"
    by simp
  have h8: "CHR ''-'' \<notin> set ''0123456789''"
    by simp
  have v: "(if truthy ?p \<and> normalizeDigits ?p \<noteq> []
         then find (\<lambda>c. suffix (drop (length (normalizeDigits ?p) - 10) (normalizeDigits ?p))
                            (normalizeDigits (Some (phone c)))) [?a, ?b]
         else None) = Some ?a"
    by (simp add: truthy_def normalizeDigits_def sampleConv_def)
  have r1: "findDeepLinkTarget [?a, ?b] (Some ''b'') ?p = Some ?b"
    using h1 long by blast
  have r2: "findDeepLinkTarget [?a, ?b] (Some ''c'') ?p = Some ?a"
    using h2 v other by simp
  have r3: "drop (length (normalizeDigits ?q) - 10) (normalizeDigits ?q)
              = drop (length (normalizeDigits ?p) - 10) (normalizeDigits ?p)"
    using h3 h4 long by blast
  have r4: "drop (length (normalizeDigits (Some ''4567'')) - 10) (normalizeDigits (Some ''4567''))
              = normalizeDigits (Some ''4567'')"
    using h6 short by blast
  have r5: "normalizeDigits (Some ''5551234567'') = ''5551234567''"
    using h7 long by blast
  have r6: "normalizeDigits (Some ''-'') = []"
    using h8 long by blast
  have "deepLinkEffect (Some ''b'') ?p ?s =
          (case findDeepLinkTarget (conversations ?s) (Some ''b'') ?p of
             Some target \<Rightarrow> (setSelectedConv (Some target) ?s, True)
           | None \<Rightarrow> (?s, False))"
    using h5 long by blast
  then have r7: "fst (deepLinkEffect (Some ''b'') ?p ?s) = setSelectedConv (Some ?b) ?s"
    using r1 by simp
  show ?thesis
    using r1 r2 r3 r4 r5 r6 r7 by blast
qed

text \<open>
  C7. The deep-link effect does nothing while a conversation is selected, whatever its
  props, and nothing when neither prop is set. When it does select a conversation it
  found nothing selected and a prop set, it calls \<^verbatim>\<open>onClearInitialTarget\<close>, which in
  \<^verbatim>\<open>App\<close> empties the pending target and with it both props; and from then on no run
  of events (list refreshes, taps, responses), each rendered with any props at all,
  makes the effect select again: the count of its selections does not move and a
  conversation stays selected.
\<close>

theorem deep_link_target_consumed_once:
  "(selectedConv s \<noteq> None \<longrightarrow> deepLinkEffect i p s = (s, False)) \<and>
   (\<not> truthy i \<and> \<not> truthy p \<longrightarrow> deepLinkEffect i p s = (s, False)) \<and>
   (snd (deepLinkEffect i p s) \<longrightarrow>
      selectedConv s = None \<and> (truthy i \<or> truthy p) \<and>
      selectedConv (fst (deepLinkEffect i p s)) \<noteq> None \<and>
      snd (runWithProps dt pes (fst (deepLinkEffect i p s), n)) = n \<and>
      selectedConv (fst (runWithProps dt pes (fst (deepLinkEffect i p s), n))) \<noteq> None) \<and>
   (snd (deepLinkEffect (initialConversationIdOf a) (initialPhoneOf a) (conversationsScreen a)) \<longrightarrow>
      deepLinkTarget (appDeepLinkEffect a) = None \<and>
      initialConversationIdOf (appDeepLinkEffect a) = None \<and>
      initialPhoneOf (appDeepLinkEffect a) = None \<and>
      appDeepLinkEffect (appDeepLinkEffect a) = appDeepLinkEffect a)"
proof -
  have a: "deepLinkEffect i p s = (s, False)" if "\<not> truthy i \<and> \<not> truthy p"
    using that by (simp add: deepLinkEffect_def)
  have b: "snd (runWithProps dt pes (fst (deepLinkEffect i p s), n)) = n \<and>
      selectedConv (fst (runWithProps dt pes (fst (deepLinkEffect i p s), n))) \<noteq> None"
    if "snd (deepLinkEffect i p s)"
    using deepLinkEffect_fires [OF that] runWithProps_selected by blast
  have c: "deepLinkTarget (appDeepLinkEffect a) = None \<and>
      initialConversationIdOf (appDeepLinkEffect a) = None \<and>
      initialPhoneOf (appDeepLinkEffect a) = None \<and>
      appDeepLinkEffect (appDeepLinkEffect a) = appDeepLinkEffect a"
    if "snd (deepLinkEffect (initialConversationIdOf a) (initialPhoneOf a) (conversationsScreen a))"
  proof -
    have "deepLinkEffect (initialConversationIdOf a) (initialPhoneOf a) (conversationsScreen a)
        = (fst (deepLinkEffect (initialConversationIdOf a) (initialPhoneOf a) (conversationsScreen a)), True)"
      using that by (simp add: prod_eq_iff)
    then obtain s' where s': "deepLinkEffect (initialConversationIdOf a) (initialPhoneOf a) (conversationsScreen a) = (s', True)"
      by blast
    then have eq: "appDeepLinkEffect a = a\<lparr>conversationsScreen := s', deepLinkTarget := None\<rparr>"
      by (simp add: appDeepLinkEffect_def)
    then show ?thesis
      by (simp add: initialConversationIdOf_def initialPhoneOf_def appDeepLinkEffect_def
          deepLinkEffect_def truthy_def)
  qed
  show ?thesis
    using a b c deepLinkEffect_selected [of s i p] deepLinkEffect_fires [of i p s]
    by blast
qed

theorem deep_link_target_consumed_once_witness:
  "snd (deepLinkEffect (Some ''b'') None
     (initialScreen\<lparr>conversations :=
        [sampleConv ''a'' ''555-123-4567'' ''1970-01-01T00:00:00.100Z'' 0 ''inbound'',
         sampleConv ''b'' ''555-000-1111'' ''1970-01-01T00:00:00.050Z'' 2 ''inbound'']\<rparr>)) \<and>
   snd (runWithProps sampleDate
     [((Some ''a'', Some ''+15551234567''),
        ConversationsSettled True (OkArray
          [sampleConv ''b'' ''555-000-1111'' ''1970-01-01T00:00:00.050Z'' 2 ''inbound'',
           sampleConv ''a'' ''555-123-4567'' ''1970-01-01T00:00:00.100Z'' 0 ''inbound'']))]
     (fst (deepLinkEffect (Some ''b'') None
        (initialScreen\<lparr>conversations :=
           [sampleConv ''a'' ''555-123-4567'' ''1970-01-01T00:00:00.100Z'' 0 ''inbound'',
            sampleConv ''b'' ''555-000-1111'' ''1970-01-01T00:00:00.050Z'' 2 ''inbound'']\<rparr>)), 1)) = 1 \<and>
   deepLinkTarget (appDeepLinkEffect
     \<lparr>deepLinkTarget = Some \<lparr>fromPhone = None, conversationId = Some ''b'', messageId = None\<rparr>,
      conversationsScreen = initialScreen\<lparr>conversations :=
        [sampleConv ''a'' ''555-123-4567'' ''1970-01-01T00:00:00.100Z'' 0 ''inbound'',
         sampleConv ''b'' ''555-000-1111'' ''1970-01-01T00:00:00.050Z'' 2 ''inbound'']\<rparr>\<rparr>) = None \<and>
   deepLinkEffect (Some ''a'') (Some ''+15551234567'')
     (initialScreen\<lparr>selectedConv :=
        Some (sampleConv ''b'' ''555-000-1111'' ''1970-01-01T00:00:00.050Z'' 2 ''inbound'')\<rparr>)
     = (initialScreen\<lparr>selectedConv :=
        Some (sampleConv ''b'' ''555-000-1111'' ''1970-01-01T00:00:00.050Z'' 2 ''inbound'')\<rparr>, False) \<and>
   deepLinkEffect None (Some [])
     (initialScreen\<lparr>conversations :=
        [sampleConv ''a'' ''555-123-4567'' ''1970-01-01T00:00:00.100Z'' 0 ''inbound'']\<rparr>)
     = (initialScreen\<lparr>conversations :=
        [sampleConv ''a'' ''555-123-4567'' ''1970-01-01T00:00:00.100Z'' 0 ''inbound'']\<rparr>, False)"
proof -
  let ?a = "sampleConv ''a'' ''555-123-4567'' ''1970-01-01T00:00:00.100Z'' 0 ''inbound''"
  let ?b = "sampleConv ''b'' ''555-000-1111'' ''1970-01-01T00:00:00.050Z'' 2 ''inbound''"
  let ?s = "initialScreen\<lparr>conversations := [?a, ?b]\<rparr>"
  let ?app = "\<lparr>deepLinkTarget = Some \<lparr>fromPhone = None, conversationId = Some ''b'', messageId = None\<rparr>,
      conversationsScreen = ?s\<rparr>"
  let ?pes = "[((Some ''a'', Some ''+15551234567''), ConversationsSettled True (OkArray [?b, ?a]))]"
  let ?sel = "initialScreen\<lparr>selectedConv := Some ?b\<rparr>"
  let ?one = "initialScreen\<lparr>conversations := [?a]\<rparr>"
  have h1: "snd (deepLinkEffect (Some ''b'') None ?s)"
    by (simp add: deepLinkEffect_def findDeepLinkTarget_def truthy_def initialScreen_def sampleConv_def)
  have h2: "snd (deepLinkEffect (initialConversationIdOf ?app) (initialPhoneOf ?app) (conversationsScreen ?app))"
    by (simp add: deepLinkEffect_def findDeepLinkTarget_def truthy_def initialScreen_def sampleConv_def
        initialConversationIdOf_def initialPhoneOf_def orUndefined_def)
  have h3: "selectedConv ?sel \<noteq> None"
    by simp
  have h4: "\<not> truthy None \<and> \<not> truthy (Some [])"
    by (simp add: truthy_def)
  have r1: "snd (runWithProps sampleDate ?pes (fst (deepLinkEffect (Some ''b'') None ?s), 1)) = 1 \<and>
            deepLinkTarget (appDeepLinkEffect ?app) = None"
    using h1 h2 deep_link_target_consumed_once [of ?s "Some ''b''" None sampleDate ?pes 1 ?app]
    by blast
  have r2: "deepLinkEffect (Some ''a'') (Some ''+15551234567'') ?sel = (?sel, False)"
    using h3 deep_link_target_consumed_once [of ?sel "Some ''a''" "Some ''+15551234567''" sampleDate ?pes 1 ?app]
    by blast
  have r3: "deepLinkEffect None (Some []) ?one = (?one, False)"
    using h4 deep_link_target_consumed_once [of ?one None "Some []" sampleDate ?pes 1 ?app]
    by blast
  show ?thesis
    using h1 r1 r2 r3 by blast
qed

section \<open>Properties of the socket client\<close>

lemma updateSocket_fields:
  "crm_mobile_socket (updateSocket r f g) = crm_mobile_socket g"
  "crm_mobile_socket_email (updateSocket r f g) = crm_mobile_socket_email g"
  "length (sockets (updateSocket r f g)) = length (sockets g)"
  by (simp_all add: updateSocket_def)

lemma createClient_eq:
  "createClient g =
     (g\<lparr>sockets := sockets g @
          [\<lparr>connected = False, connectRequested = False,
            listeners = [(''connect_error'', OnConnectError (length (sockets g))),
                         (''error'', OnError (length (sockets g))),
                         (''connect'', OnConnect (length (sockets g)))],
            emitted = []\<rparr>]\<rparr>,
      length (sockets g))"
  by (simp add: createClient_def socket_on_def updateSocket_def Let_def)

lemma getSocket_existing: "crm_mobile_socket g = Some r \<Longrightarrow> getSocket g = (g, Some r)"
  by (simp add: getSocket_def)

lemma getSocket_fresh:
  "crm_mobile_socket g = None \<Longrightarrow>
   getSocket g = ((fst (createClient g))\<lparr>crm_mobile_socket := Some (length (sockets g))\<rparr>,
                  Some (length (sockets g)))"
  by (simp add: getSocket_def createClient_eq)

lemma getSocket_stored:
  "crm_mobile_socket (fst (getSocket g)) = snd (getSocket g)"
  "\<exists>r. snd (getSocket g) = Some r"
  "length (sockets (fst (getSocket g))) \<le> Suc (length (sockets g))"
  by (cases "crm_mobile_socket g"; simp add: getSocket_def createClient_eq)+

lemma connectAndJoin_getSocket:
  "crm_mobile_socket (fst (connectAndJoin e g)) = snd (getSocket g)"
  "snd (connectAndJoin e g) = snd (getSocket g)"
  "length (sockets (fst (connectAndJoin e g))) = length (sockets (fst (getSocket g)))"
proof -
  obtain r where r: "snd (getSocket g) = Some r"
    using getSocket_stored(2) by blast
  then have gs: "getSocket g = (fst (getSocket g), Some r)"
    by (simp add: prod_eq_iff)
  have st: "crm_mobile_socket (fst (getSocket g)) = Some r"
    using r by (simp add: getSocket_stored(1))
  have eq: "connectAndJoin e g =
     (let g1 = fst (getSocket g);
          normalized = toLowerCase (trim (case e of Some x \<Rightarrow> x | None \<Rightarrow> []));
          g2 = g1\<lparr>crm_mobile_socket_email := (if normalized \<noteq> [] then Some normalized else None)\<rparr>;
          g3 = (if \<not> connected (sockets g2 ! r) then socket_connect r g2 else g2);
          g4 = (if normalized \<noteq> [] then socket_emit r ''join'' normalized g3 else g3)
      in (g4, Some r))"
    by (subst connectAndJoin_def, subst gs) (simp add: Let_def)
  show "crm_mobile_socket (fst (connectAndJoin e g)) = snd (getSocket g)"
    using st r by (simp add: eq Let_def socket_connect_def socket_emit_def updateSocket_fields)
  show "snd (connectAndJoin e g) = snd (getSocket g)"
    using r by (simp add: eq Let_def)
  show "length (sockets (fst (connectAndJoin e g))) = length (sockets (fst (getSocket g)))"
    by (simp add: eq Let_def socket_connect_def socket_emit_def updateSocket_fields)
qed

lemma doCall_stored:
  "crm_mobile_socket (fst (doCall c g)) = snd (doCall c g)"
  "\<exists>r. snd (doCall c g) = Some r"
  "length (sockets (fst (doCall c g))) \<le> Suc (length (sockets g))"
  by (cases c; simp add: doCall_def getSocket_stored connectAndJoin_getSocket)+

lemma doCall_existing:
  assumes "crm_mobile_socket g = Some r"
  shows "snd (doCall c g) = Some r" and "length (sockets (fst (doCall c g))) = length (sockets g)"
  by (cases c; simp add: doCall_def connectAndJoin_getSocket getSocket_existing [OF assms])+

lemma runCalls_Cons:
  "fst (runCalls (c # cs) g) = fst (runCalls cs (fst (doCall c g)))"
  "snd (runCalls (c # cs) g) = snd (doCall c g) # snd (runCalls cs (fst (doCall c g)))"
  by (simp_all split: prod.splits)

lemma runCalls_existing:
  "crm_mobile_socket g = Some r \<Longrightarrow>
   crm_mobile_socket (fst (runCalls cs g)) = Some r \<and>
   length (sockets (fst (runCalls cs g))) = length (sockets g) \<and>
   (\<forall>x\<in>set (snd (runCalls cs g)). x = Some r)"
proof (induction cs arbitrary: g)
  case Nil
  then show ?case by simp
next
  case (Cons c cs)
  have ret: "snd (doCall c g) = Some r" and len: "length (sockets (fst (doCall c g))) = length (sockets g)"
    using doCall_existing [OF Cons.prems] by blast+
  then have "crm_mobile_socket (fst (doCall c g)) = Some r"
    by (simp add: doCall_stored(1))
  from Cons.IH [OF this] ret len show ?case
    by (simp del: runCalls.simps add: runCalls_Cons)
qed

lemma runCalls_any:
  "length (sockets (fst (runCalls cs g))) \<le> Suc (length (sockets g)) \<and>
   (\<forall>x\<in>set (snd (runCalls cs g)). x = crm_mobile_socket (fst (runCalls cs g)) \<and> x \<noteq> None)"
proof (cases cs)
  case Nil
  then show ?thesis by simp
next
  case (Cons c cs')
  obtain r where r: "snd (doCall c g) = Some r"
    using doCall_stored(2) by blast
  then have "crm_mobile_socket (fst (doCall c g)) = Some r"
    by (simp add: doCall_stored(1))
  from runCalls_existing [OF this, of cs'] r doCall_stored(3) [of c g] Cons show ?thesis
    by (auto simp del: runCalls.simps simp add: runCalls_Cons)
qed

text \<open>
  C8. \<^verbatim>\<open>getSocket\<close> returns the stored socket when there is one and leaves the registry
  as it is; otherwise it builds one client, stores it and returns it. Over any run of
  \<^verbatim>\<open>getSocket\<close> and \<^verbatim>\<open>connectAndJoin\<close> calls at most one socket object is built (none if
  one was stored, so at most one exists when the process starts with none), and every
  call returns the socket that is stored at the end. Two \<^verbatim>\<open>connectAndJoin\<close> calls in a
  row return the same socket, and the second builds nothing.
\<close>

theorem singleton_connection:
  "(crm_mobile_socket g = Some r \<longrightarrow> getSocket g = (g, Some r)) \<and>
   (crm_mobile_socket g = None \<longrightarrow>
      snd (getSocket g) = Some (length (sockets g)) \<and>
      crm_mobile_socket (fst (getSocket g)) = Some (length (sockets g)) \<and>
      sockets (fst (getSocket g)) = sockets (fst (createClient g)) \<and>
      length (sockets (fst (getSocket g))) = Suc (length (sockets g))) \<and>
   length (sockets (fst (runCalls cs g))) \<le> Suc (length (sockets g)) \<and>
   (crm_mobile_socket g \<noteq> None \<longrightarrow> length (sockets (fst (runCalls cs g))) = length (sockets g)) \<and>
   length (sockets (fst (runCalls cs initialRegistry))) \<le> 1 \<and>
   (\<forall>x\<in>set (snd (runCalls cs g)). x = crm_mobile_socket (fst (runCalls cs g)) \<and> x \<noteq> None) \<and>
   snd (connectAndJoin e (fst (connectAndJoin e g))) = snd (connectAndJoin e g) \<and>
   snd (connectAndJoin e g) \<noteq> None \<and>
   length (sockets (fst (connectAndJoin e (fst (connectAndJoin e g))))) =
     length (sockets (fst (connectAndJoin e g)))"
proof -
  have a: "length (sockets (fst (runCalls cs initialRegistry))) \<le> 1"
    using runCalls_any [of cs initialRegistry] by (simp add: initialRegistry_def)
  have b: "snd (getSocket g) = Some (length (sockets g)) \<and>
      crm_mobile_socket (fst (getSocket g)) = Some (length (sockets g)) \<and>
      sockets (fst (getSocket g)) = sockets (fst (createClient g)) \<and>
      length (sockets (fst (getSocket g))) = Suc (length (sockets g))"
    if "crm_mobile_socket g = None"
    using that by (simp add: getSocket_fresh createClient_eq)
  have ex: "length (sockets (fst (runCalls cs g))) = length (sockets g)"
    if "crm_mobile_socket g \<noteq> None"
    using that runCalls_existing [of g _ cs] by auto
  obtain k where k: "snd (connectAndJoin e g) = Some k"
    using getSocket_stored(2) [of g] by (auto simp: connectAndJoin_getSocket)
  then have st: "crm_mobile_socket (fst (connectAndJoin e g)) = Some k"
    by (simp add: connectAndJoin_getSocket)
  have c: "snd (connectAndJoin e (fst (connectAndJoin e g))) = snd (connectAndJoin e g)"
    using k by (simp add: connectAndJoin_getSocket(2) [of e "fst (connectAndJoin e g)"] getSocket_existing [OF st])
  have d: "length (sockets (fst (connectAndJoin e (fst (connectAndJoin e g))))) =
     length (sockets (fst (connectAndJoin e g)))"
    by (simp add: connectAndJoin_getSocket(3) [of e "fst (connectAndJoin e g)"] getSocket_existing [OF st])
  have f: "snd (connectAndJoin e g) \<noteq> None"
    using k by simp
  show ?thesis
    using a b c d f ex runCalls_any [of cs g] getSocket_existing [of g r]
    by blast
qed

theorem singleton_connection_witness:
  "snd (getSocket initialRegistry) = Some 0 \<and>
   getSocket (fst (getSocket initialRegistry)) = (fst (getSocket initialRegistry), Some 0) \<and>
   length (sockets (fst (runCalls
      [GetSocket, ConnectAndJoin (Some ''Bob@Example.com''), ConnectAndJoin (Some ''Bob@Example.com'')]
      (fst (getSocket initialRegistry))))) = Suc 0 \<and>
   crm_mobile_socket (fst (runCalls
      [GetSocket, ConnectAndJoin (Some ''Bob@Example.com''), ConnectAndJoin (Some ''Bob@Example.com'')]
      initialRegistry)) = Some 0"
proof -
  let ?g1 = "fst (getSocket initialRegistry)"
  let ?cs = "[GetSocket, ConnectAndJoin (Some ''Bob@Example.com''), ConnectAndJoin (Some ''Bob@Example.com'')]"
  have h1: "crm_mobile_socket initialRegistry = None" and l0: "length (sockets initialRegistry) = 0"
    by (simp_all add: initialRegistry_def)
  note at_start = singleton_connection [of initialRegistry 0 ?cs "Some ''Bob@Example.com''", unfolded l0]
  have r1: "snd (getSocket initialRegistry) = Some 0 \<and> crm_mobile_socket ?g1 = Some 0 \<and>
            length (sockets ?g1) = Suc 0"
    using h1 at_start by blast
  then have h2: "crm_mobile_socket ?g1 = Some 0" and h3: "crm_mobile_socket ?g1 \<noteq> None"
    by simp_all
  note later = singleton_connection [of ?g1 0 ?cs "Some ''Bob@Example.com''"]
  have r2: "getSocket ?g1 = (?g1, Some 0)"
    using h2 later by blast
  have "length (sockets (fst (runCalls ?cs ?g1))) = length (sockets ?g1)"
    using h3 later by blast
  then have r3: "length (sockets (fst (runCalls ?cs ?g1))) = Suc 0"
    using r1 by simp
  have m: "Some 0 \<in> set (snd (runCalls ?cs initialRegistry))"
    using r1 by (simp del: runCalls.simps add: runCalls_Cons doCall_def)
  have "\<forall>x\<in>set (snd (runCalls ?cs initialRegistry)).
          x = crm_mobile_socket (fst (runCalls ?cs initialRegistry)) \<and> x \<noteq> None"
    by (rule at_start [THEN conjunct2, THEN conjunct2, THEN conjunct2, THEN conjunct2,
          THEN conjunct2, THEN conjunct1])
  then have r4: "crm_mobile_socket (fst (runCalls ?cs initialRegistry)) = Some 0"
    using m by (simp del: runCalls.simps)
  show ?thesis
    using r1 r2 r3 r4 by blast
qed

lemma wellFormed_stored: "wellFormed g \<Longrightarrow> crm_mobile_socket g = Some r \<Longrightarrow> r < length (sockets g)"
  by (simp add: wellFormed_def)

lemma wellFormed_owner:
  "wellFormed g \<Longrightarrow> h \<in> registeredHandlers g \<Longrightarrow> handlerOwner h = Some k \<Longrightarrow> k < length (sockets g)"
  by (fastforce simp: wellFormed_def)

lemma disconnectSocket_existing:
  assumes "crm_mobile_socket g = Some r" and "r < length (sockets g)"
  shows "disconnectSocket g =
     g\<lparr>sockets := (sockets g)[r := (sockets g ! r)\<lparr>listeners := [], connected := False, connectRequested := False\<rparr>],
       crm_mobile_socket := None, crm_mobile_socket_email := None\<rparr>"
  using assms
  by (simp add: disconnectSocket_def getSocket_def socket_disconnect_def socket_removeAllListeners_def
      updateSocket_def)

lemma disconnectSocket_none:
  assumes "crm_mobile_socket g = None"
  shows "disconnectSocket g =
     g\<lparr>sockets := sockets g @ [\<lparr>connected = False, connectRequested = False, listeners = [], emitted = []\<rparr>],
       crm_mobile_socket := None, crm_mobile_socket_email := None\<rparr>"
  using assms
  by (simp add: disconnectSocket_def getSocket_def createClient_eq socket_disconnect_def
      socket_removeAllListeners_def updateSocket_def)

lemma disconnectSocket_cleared:
  "crm_mobile_socket (disconnectSocket g) = None" "crm_mobile_socket_email (disconnectSocket g) = None"
  by (simp_all add: disconnectSocket_def Let_def split: prod.splits)

lemma connectAndJoin_fresh:
  assumes "crm_mobile_socket g = None"
  shows "snd (connectAndJoin e g) = Some (length (sockets g))"
    and "sockets (fst (connectAndJoin e g)) = sockets g @
          [\<lparr>connected = False, connectRequested = True,
            listeners = [(''connect_error'', OnConnectError (length (sockets g))),
                         (''error'', OnError (length (sockets g))),
                         (''connect'', OnConnect (length (sockets g)))],
            emitted = (if toLowerCase (trim (case e of Some x \<Rightarrow> x | None \<Rightarrow> [])) \<noteq> []
                       then [(''join'', toLowerCase (trim (case e of Some x \<Rightarrow> x | None \<Rightarrow> [])))]
                       else [])\<rparr>]"
    and "crm_mobile_socket (fst (connectAndJoin e g)) = Some (length (sockets g))"
  using assms
  by (simp_all add: connectAndJoin_def getSocket_def createClient_eq Let_def socket_connect_def
      socket_emit_def updateSocket_def)

text \<open>
  C9 (counterexample). With no socket stored, \<^verbatim>\<open>disconnectSocket\<close> is not a no-op: its
  call of \<^verbatim>\<open>getSocket\<close> builds a client, which it then strips and drops.
\<close>

theorem disconnect_without_socket_builds_client_counterexample:
  "disconnectSocket initialRegistry \<noteq> initialRegistry \<and>
   sockets initialRegistry = [] \<and>
   sockets (disconnectSocket initialRegistry)
     = [\<lparr>connected = False, connectRequested = False, listeners = [], emitted = []\<rparr>]"
  by (simp add: initialRegistry_def disconnectSocket_none)

text \<open>
  C9 (amended). \<^verbatim>\<open>disconnectSocket\<close> always leaves the registry without socket and
  without identity. When a socket was stored, that socket loses all its listeners and is
  closed, and no other socket object is touched. When none was stored, the call is safe
  but not a no-op: it builds one client, never connected, strips it and drops it. A
  \<^verbatim>\<open>connectAndJoin\<close> that follows builds a new socket object, distinct from every earlier
  one, asks it to connect, and its listeners are the three that \<^verbatim>\<open>createClient\<close>
  has just made for it: no listener registered on any socket before the disconnect fires
  on it, for any event, and the old socket has no listener left.
\<close>

theorem disconnect_then_connect_is_fresh:
  assumes "wellFormed g"
    and "g1 = disconnectSocket g"
    and "n = length (sockets g1)"
    and "g2 = fst (connectAndJoin e g1)"
  shows "crm_mobile_socket g1 = None \<and> crm_mobile_socket_email g1 = None \<and>
    (crm_mobile_socket g = Some r \<longrightarrow>
       length (sockets g1) = length (sockets g) \<and>
       listeners (sockets g1 ! r) = [] \<and> \<not> connected (sockets g1 ! r) \<and>
       \<not> connectRequested (sockets g1 ! r) \<and>
       (\<forall>k. k \<noteq> r \<longrightarrow> sockets g1 ! k = sockets g ! k)) \<and>
    (crm_mobile_socket g = None \<longrightarrow>
       sockets g1 = sockets g @
         [\<lparr>connected = False, connectRequested = False, listeners = [], emitted = []\<rparr>]) \<and>
    snd (connectAndJoin e g1) = Some n \<and> crm_mobile_socket g2 = Some n \<and>
    length (sockets g) \<le> n \<and> length (sockets g2) = Suc n \<and>
    (\<forall>k<n. sockets g2 ! k = sockets g1 ! k) \<and>
    listeners (sockets g2 ! n) =
      [(''connect_error'', OnConnectError n), (''error'', OnError n), (''connect'', OnConnect n)] \<and>
    \<not> connected (sockets g2 ! n) \<and> connectRequested (sockets g2 ! n) \<and>
    (\<forall>h ev. h \<in> registeredHandlers g \<longrightarrow> h \<notin> set (handlersFor n ev g2)) \<and>
    (crm_mobile_socket g = Some r \<longrightarrow> (\<forall>ev. handlersFor r ev g2 = []))"
proof -
  have cleared: "crm_mobile_socket g1 = None" "crm_mobile_socket_email g1 = None"
    by (simp_all add: assms(2) disconnectSocket_cleared)
  have ex: "length (sockets g1) = length (sockets g) \<and>
       listeners (sockets g1 ! r) = [] \<and> \<not> connected (sockets g1 ! r) \<and>
       \<not> connectRequested (sockets g1 ! r) \<and>
       (\<forall>k. k \<noteq> r \<longrightarrow> sockets g1 ! k = sockets g ! k)"
    if "crm_mobile_socket g = Some r" for r
    using disconnectSocket_existing [OF that wellFormed_stored [OF assms(1) that]]
      wellFormed_stored [OF assms(1) that]
    by (simp add: assms(2))
  have none: "sockets g1 = sockets g @
         [\<lparr>connected = False, connectRequested = False, listeners = [], emitted = []\<rparr>]"
    if "crm_mobile_socket g = None"
    using disconnectSocket_none [OF that] by (simp add: assms(2))
  have len: "length (sockets g) \<le> n"
    using ex none by (cases "crm_mobile_socket g") (auto simp: assms(3))
  note fresh = connectAndJoin_fresh [OF cleared(1), of e, folded assms(3) assms(4)]
  have ret: "snd (connectAndJoin e g1) = Some n" "crm_mobile_socket g2 = Some n"
    using fresh by simp_all
  have heap: "length (sockets g2) = Suc n" "\<forall>k<n. sockets g2 ! k = sockets g1 ! k"
    "listeners (sockets g2 ! n) =
      [(''connect_error'', OnConnectError n), (''error'', OnError n), (''connect'', OnConnect n)]"
    "\<not> connected (sockets g2 ! n)" "connectRequested (sockets g2 ! n)"
    using fresh(2) by (simp_all add: assms(3) nth_append)
  have old: "h \<notin> set (handlersFor n ev g2)" if "h \<in> registeredHandlers g" for h ev
  proof
    assume "h \<in> set (handlersFor n ev g2)"
    then have "h \<in> snd ` set (listeners (sockets g2 ! n))"
      by (auto simp: handlersFor_def)
    then have "h \<in> {OnConnectError n, OnError n, OnConnect n}"
      by (simp add: heap(3))
    then have "handlerOwner h = Some n"
      by (auto simp: handlerOwner_def)
    from wellFormed_owner [OF assms(1) that this] len show False
      by simp
  qed
  have gone: "handlersFor r ev g2 = []" if "crm_mobile_socket g = Some r" for ev
  proof -
    have "r < n"
      using wellFormed_stored [OF assms(1) that] len by simp
    then have "sockets g2 ! r = sockets g1 ! r"
      using heap(2) by simp
    then show ?thesis
      using ex [OF that] by (simp add: handlersFor_def)
  qed
  show ?thesis
    using cleared ex none ret len heap old gone by blast
qed

theorem disconnect_then_connect_is_fresh_witness:
  "wellFormed (socket_on 0 ''newMessage'' (ViewHandler 0)
      (fst (connectAndJoin (Some ''Bob@Example.com'') initialRegistry))) \<and>
   ViewHandler 0 \<in> registeredHandlers (socket_on 0 ''newMessage'' (ViewHandler 0)
      (fst (connectAndJoin (Some ''Bob@Example.com'') initialRegistry))) \<and>
   snd (connectAndJoin (Some ''bob@example.com'')
      (disconnectSocket (socket_on 0 ''newMessage'' (ViewHandler 0)
         (fst (connectAndJoin (Some ''Bob@Example.com'') initialRegistry))))) = Some 1 \<and>
   ViewHandler 0 \<notin> set (handlersFor 1 ''newMessage''
      (fst (connectAndJoin (Some ''bob@example.com'')
         (disconnectSocket (socket_on 0 ''newMessage'' (ViewHandler 0)
            (fst (connectAndJoin (Some ''Bob@Example.com'') initialRegistry))))))) \<and>
   handlersFor 0 ''newMessage''
      (fst (connectAndJoin (Some ''bob@example.com'')
         (disconnectSocket (socket_on 0 ''newMessage'' (ViewHandler 0)
            (fst (connectAndJoin (Some ''Bob@Example.com'') initialRegistry)))))) = []"
proof -
  let ?g = "socket_on 0 ''newMessage'' (ViewHandler 0)
      (fst (connectAndJoin (Some ''Bob@Example.com'') initialRegistry))"
  let ?g1 = "disconnectSocket ?g"
  let ?g2 = "fst (connectAndJoin (Some ''bob@example.com'') ?g1)"
  have start: "crm_mobile_socket initialRegistry = None" "sockets initialRegistry = []"
    by (simp_all add: initialRegistry_def)
  have g: "crm_mobile_socket ?g = Some 0"
    "sockets ?g = [\<lparr>connected = False, connectRequested = True,
        listeners = [(''connect_error'', OnConnectError 0), (''error'', OnError 0),
                     (''connect'', OnConnect 0), (''newMessage'', ViewHandler 0)],
        emitted = (if toLowerCase (trim ''Bob@Example.com'') \<noteq> []
                   then [(''join'', toLowerCase (trim ''Bob@Example.com''))] else [])\<rparr>]"
    using connectAndJoin_fresh [OF start(1), of "Some ''Bob@Example.com''"]
    by (simp_all add: socket_on_def updateSocket_def start(2))
  have h1: "wellFormed ?g"
    by (auto simp: wellFormed_def registeredHandlers_def g handlerOwner_def)
  have h2: "ViewHandler 0 \<in> registeredHandlers ?g"
    by (simp add: registeredHandlers_def g)
  note t = disconnect_then_connect_is_fresh [OF h1 refl refl refl, where e = "Some ''bob@example.com''" and r = 0]
  have n: "length (sockets ?g1) = 1"
    using t g by simp
  have r1: "snd (connectAndJoin (Some ''bob@example.com'') ?g1) = Some 1"
    using t n by simp
  have r2: "ViewHandler 0 \<notin> set (handlersFor 1 ''newMessage'' ?g2)"
    using t h2 n by simp
  have r3: "handlersFor 0 ''newMessage'' ?g2 = []"
    using t g(1) by simp
  show ?thesis
    using h1 h2 r1 r2 r3 by blast
qed

text \<open>Every registry the client can reach is well formed.\<close>

lemma registeredHandlers_append:
  "registeredHandlers (g\<lparr>sockets := sockets g @ [so]\<rparr>) = registeredHandlers g \<union> snd ` set (listeners so)"
  by (auto simp: registeredHandlers_def)

lemma registeredHandlers_updateSocket:
  "registeredHandlers (updateSocket r f g) \<subseteq>
     registeredHandlers g \<union> snd ` set (listeners (f (sockets g ! r)))"
proof -
  have "set ((sockets g)[r := f (sockets g ! r)]) \<subseteq> insert (f (sockets g ! r)) (set (sockets g))"
    by (rule set_update_subset_insert)
  then show ?thesis
    by (fastforce simp: registeredHandlers_def updateSocket_def)
qed

lemma wellFormed_updateSocket:
  assumes "wellFormed g"
    and "\<forall>h\<in>snd ` set (listeners (f (sockets g ! r))).
           h \<in> registeredHandlers g \<or> handlerOwner h = None"
  shows "wellFormed (updateSocket r f g)"
proof -
  have "k < length (sockets g)"
    if "h \<in> registeredHandlers (updateSocket r f g)" "handlerOwner h = Some k" for h k
  proof -
    from that(1) registeredHandlers_updateSocket [of r f g]
    have "h \<in> registeredHandlers g \<or> h \<in> snd ` set (listeners (f (sockets g ! r)))"
      by blast
    then have "h \<in> registeredHandlers g \<or> handlerOwner h = None"
      using assms(2) by auto
    then show ?thesis
      using assms(1) that(2) by (auto simp: wellFormed_def)
  qed
  then show ?thesis
    using assms(1) by (auto simp: wellFormed_def updateSocket_fields)
qed

lemma listeners_registered:
  "r < length (sockets g) \<Longrightarrow> h \<in> snd ` set (listeners (sockets g ! r)) \<Longrightarrow> h \<in> registeredHandlers g"
  by (auto simp: registeredHandlers_def intro!: bexI [of _ "sockets g ! r"])

lemma wellFormed_keep_listeners:
  assumes "wellFormed g" and "set (listeners (f (sockets g ! r))) \<subseteq> set (listeners (sockets g ! r))"
  shows "wellFormed (updateSocket r f g)"
proof (cases "r < length (sockets g)")
  case True
  show ?thesis
  proof (rule wellFormed_updateSocket [OF assms(1)], rule ballI)
    fix h assume "h \<in> snd ` set (listeners (f (sockets g ! r)))"
    then have "h \<in> snd ` set (listeners (sockets g ! r))"
      using assms(2) by blast
    then show "h \<in> registeredHandlers g \<or> handlerOwner h = None"
      using listeners_registered [OF True] by blast
  qed
next
  case False
  then have "updateSocket r f g = g"
    by (simp add: updateSocket_def list_update_beyond)
  then show ?thesis
    using assms(1) by simp
qed

lemma wellFormed_initial: "wellFormed initialRegistry"
  by (simp add: wellFormed_def initialRegistry_def registeredHandlers_def)

lemma wellFormed_email: "wellFormed g \<Longrightarrow> wellFormed (g\<lparr>crm_mobile_socket_email := x\<rparr>)"
  by (simp add: wellFormed_def registeredHandlers_def)

lemma wellFormed_getSocket: "wellFormed g \<Longrightarrow> wellFormed (fst (getSocket g))"
proof (cases "crm_mobile_socket g")
  case None
  assume wf: "wellFormed g"
  have "k < Suc (length (sockets g))"
    if "h \<in> registeredHandlers g \<union> {OnConnectError (length (sockets g)), OnError (length (sockets g)),
          OnConnect (length (sockets g))}" "handlerOwner h = Some k" for h k
    using that wf by (fastforce simp: wellFormed_def handlerOwner_def)
  then show ?thesis
    using None
    by (auto simp: getSocket_def createClient_eq wellFormed_def registeredHandlers_def)
next
  case (Some r)
  assume "wellFormed g"
  then show ?thesis using Some by (simp add: getSocket_def)
qed

lemma wellFormed_socket_on_view:
  "wellFormed g \<Longrightarrow> wellFormed (socket_on r ev (ViewHandler k) g)"
proof (cases "r < length (sockets g)")
  case True
  assume wf: "wellFormed g"
  show ?thesis
    unfolding socket_on_def
  proof (rule wellFormed_updateSocket [OF wf], rule ballI)
    fix h assume "h \<in> snd ` set (listeners ((sockets g ! r)\<lparr>listeners := listeners (sockets g ! r) @ [(ev, ViewHandler k)]\<rparr>))"
    then have "h \<in> snd ` set (listeners (sockets g ! r)) \<or> h = ViewHandler k"
      by auto
    then show "h \<in> registeredHandlers g \<or> handlerOwner h = None"
      using listeners_registered [OF True] by (auto simp: handlerOwner_def)
  qed
next
  case False
  assume "wellFormed g"
  then show ?thesis using False by (simp add: socket_on_def updateSocket_def list_update_beyond)
qed

lemma wellFormed_connectAndJoin: "wellFormed g \<Longrightarrow> wellFormed (fst (connectAndJoin e g))"
proof -
  assume wf: "wellFormed g"
  obtain r where r: "snd (getSocket g) = Some r"
    using getSocket_stored(2) by blast
  then have gs: "getSocket g = (fst (getSocket g), Some r)"
    by (simp add: prod_eq_iff)
  have wf1: "wellFormed (fst (getSocket g)\<lparr>crm_mobile_socket_email := x\<rparr>)" for x
    using wellFormed_email [OF wellFormed_getSocket [OF wf]] .
  show ?thesis
    by (subst connectAndJoin_def, subst gs)
      (simp add: Let_def socket_connect_def socket_emit_def wf1 wellFormed_keep_listeners)
qed

lemma wellFormed_disconnectSocket: "wellFormed g \<Longrightarrow> wellFormed (disconnectSocket g)"
proof -
  assume wf: "wellFormed g"
  have "\<forall>h\<in>registeredHandlers (disconnectSocket g).
          \<forall>k. handlerOwner h = Some k \<longrightarrow> k < length (sockets (disconnectSocket g))"
  proof (cases "crm_mobile_socket g")
    case None
    then show ?thesis
      using wf by (fastforce simp: disconnectSocket_none wellFormed_def registeredHandlers_def)
  next
    case (Some r)
    have lt: "r < length (sockets g)"
      using wf Some by (rule wellFormed_stored)
    have "set ((sockets g)[r := (sockets g ! r)\<lparr>listeners := [], connected := False, connectRequested := False\<rparr>])
          \<subseteq> insert ((sockets g ! r)\<lparr>listeners := [], connected := False, connectRequested := False\<rparr>) (set (sockets g))"
      by (rule set_update_subset_insert)
    then have "registeredHandlers (disconnectSocket g) \<subseteq> registeredHandlers g"
      by (fastforce simp: disconnectSocket_existing [OF Some lt] registeredHandlers_def)
    then show ?thesis
      using wf by (auto simp: wellFormed_def disconnectSocket_existing [OF Some lt])
  qed
  then show ?thesis
    by (simp add: wellFormed_def disconnectSocket_cleared)
qed

end
